theory Spec2Isabelle
  imports Complex_Main "HOL-Library.Word"
begin

section \<open>LO-RANSAC with MSAC scoring: the data model of \<open>RansacLib/ransac.h\<close>\<close>

text \<open>
  Conventions of the embedding.
  \<^item> \<open>uint32_t\<close> and \<open>unsigned int\<close> are \<open>32 word\<close>: \<open>+\<close> wraps, \<open><\<close>, \<open>min\<close> and
    \<open>max\<close> are unsigned.
  \<^item> \<open>int\<close> is \<open>int\<close>. Signed overflow is undefined in C++: the loops count from 0 up
    to a bound that is itself an \<open>int\<close> of the program, and the two products of a
    multiplier and a sample size are taken to fit.
  \<^item> A \<open>double\<close> is the \<open>real\<close> it denotes; there is no NaN and no infinity.
    Comparisons and \<open>std::min\<close> are exact. The operations \<open>+\<close>, \<open>-\<close>, \<open>*\<close> and \<open>/\<close>
    on doubles are parameters of the model, so that each can round its result as the
    platform does: \<open>binary64_externals\<close> below rounds to the nearest binary64 value,
    ties to even, and \<open>plain_externals\<close> does not round. Inside
    \<open>NumRequiredIterations\<close>, whose \<open>std::pow\<close> and \<open>std::log\<close> are library functions
    without a fixed rounding, the arithmetic is exact.
    \<open>std::numeric_limits<double>::max()\<close> is the real number \<open>DBL_MAX\<close>, the largest
    finite double. Where the C++ would produce a NaN or an infinity and convert it to an
    integer (undefined behaviour), the model asks a parameter for the result.
  \<^item> The members of the options classes end in an underscore in the C++
    (\<open>min_num_iterations_\<close>), which is not a name in Isabelle: the fields end in \<open>_opt\<close>.
  \<^item> A pointer argument that the C++ writes through is a value that the function returns.
\<close>

type_synonym uint32 = "32 word"

definition DBL_MAX :: real where
  "DBL_MAX = (2 ^ 53 - 1) * 2 ^ 971"

record RansacOptions =
  min_num_iterations_opt :: uint32
  max_num_iterations_opt :: uint32
  success_probability_opt :: real
  squared_inlier_threshold_opt :: real
  random_seed_opt :: uint32

record LORansacOptions = RansacOptions +
  num_lo_steps_opt :: int
  threshold_multiplier_opt :: real
  num_lsq_iterations_opt :: int
  min_sample_multiplicator_opt :: int
  non_min_sample_multiplier_opt :: int

record RansacStatistics =
  num_iterations :: uint32
  best_num_inliers :: int
  best_model_score :: real
  inlier_ratio :: real
  inlier_indices :: "int list"

text \<open>
  The template parameter \<open>Solver\<close>, with \<open>Model\<close> the type variable \<open>'m\<close>. The solver is
  passed by const reference, so each member function is a function of its arguments.
  \<open>MinimalSolver\<close> receives the vector \<open>estimated_models\<close> by pointer and returns it with
  its count; \<open>NonMinimalSolver\<close> receives the model to fill and returns it with its flag.
  \<open>default_model\<close> is \<open>Model()\<close>, the default-constructed model.
\<close>

record 'm Solver =
  min_sample_size :: int
  non_minimal_sample_size :: int
  num_data :: int
  MinimalSolver :: "int list \<Rightarrow> 'm list \<Rightarrow> int \<times> 'm list"
  NonMinimalSolver :: "int list \<Rightarrow> 'm \<Rightarrow> bool \<times> 'm"
  LeastSquares :: "int list \<Rightarrow> 'm \<Rightarrow> 'm"
  EvaluateModelOnPoint :: "'m \<Rightarrow> int \<Rightarrow> real"
  default_model :: 'm

text \<open>
  What \<open>ransac.h\<close> uses from \<open>sampling.h\<close>, \<open>utils.h\<close>, \<open><random>\<close> and the platform,
  taken as parameters: the sampler (\<open>'s\<close> its state), the generator \<open>std::mt19937\<close>
  (\<open>'r\<close> its state), the partial shuffle, the result of converting to \<open>uint32_t\<close> a
  double that is not a finite number in range (given the three arguments of
  \<open>NumRequiredIterations\<close> that the double was computed from), and the four arithmetic
  operations on doubles.
\<close>

record ('s, 'r) Externals =
  UniformSampling :: "uint32 \<Rightarrow> int \<Rightarrow> int \<Rightarrow> 's"
  Sample :: "'s \<Rightarrow> int list \<Rightarrow> 's \<times> int list"
  mt19937_seed :: "uint32 \<Rightarrow> 'r"
  RandomShuffleAndResize :: "int \<Rightarrow> 'r \<Rightarrow> int list \<Rightarrow> 'r \<times> int list"
  undefined_conversion :: "real \<Rightarrow> real \<Rightarrow> int \<Rightarrow> uint32"
  double_add :: "real \<Rightarrow> real \<Rightarrow> real"
  double_sub :: "real \<Rightarrow> real \<Rightarrow> real"
  double_mul :: "real \<Rightarrow> real \<Rightarrow> real"
  double_div :: "real \<Rightarrow> real \<Rightarrow> real"

section \<open>\<open>RansacBase\<close>\<close>

definition ResetStatistics :: "RansacStatistics \<Rightarrow> RansacStatistics" where
  "ResetStatistics statistics =
     statistics\<lparr>best_num_inliers := 0, best_model_score := DBL_MAX, num_iterations := 0,
       inlier_ratio := 0, inlier_indices := []\<rparr>"

text \<open>
  \<open>kLogNumerator / kLogDenominator\<close> as a real number, where it is one. With
  \<open>0 < inlier_ratio < 1\<close> the power \<open>powr\<close> is positive, so \<open>kProbNonInlierSample < 1\<close> and
  the denominator is not zero. \<open>std::log\<close> of 0 is \<open>-inf\<close> and of a negative number NaN:
  a positive numerator over \<open>log 0\<close> is a zero, every other such case is an infinity or
  a NaN (\<open>None\<close>).
\<close>

definition log_ratio :: "real \<Rightarrow> real \<Rightarrow> real option" where
  "log_ratio prob_missing_best_model kProbNonInlierSample =
     (if 0 < prob_missing_best_model \<and> 0 < kProbNonInlierSample
      then Some (ln prob_missing_best_model / ln kProbNonInlierSample)
      else if 0 < prob_missing_best_model \<and> kProbNonInlierSample = 0 then Some 0
      else None)"

definition NumRequiredIterations ::
  "(real \<Rightarrow> real \<Rightarrow> int \<Rightarrow> uint32) \<Rightarrow> real \<Rightarrow> real \<Rightarrow> int \<Rightarrow> uint32 \<Rightarrow> uint32 \<Rightarrow> uint32" where
  "NumRequiredIterations undef ratio prob_missing_best_model sample_size
       min_iterations max_iterations =
     (if ratio \<le> 0 then max_iterations
      else if ratio \<ge> 1 then min_iterations
      else
        let kProbNonInlierSample = 1 - ratio powr real_of_int sample_size;
            converted =
              (case log_ratio prob_missing_best_model kProbNonInlierSample of
                 None \<Rightarrow> undef ratio prob_missing_best_model sample_size
               | Some q \<Rightarrow>
                   let num_iters = \<lceil>q + 1 / 2\<rceil>
                   in if 0 \<le> num_iters \<and> num_iters < 2 ^ 32 then word_of_int num_iters
                      else undef ratio prob_missing_best_model sample_size);
            num_req_iterations = min converted max_iterations
        in max min_iterations num_req_iterations)"

section \<open>\<open>LocallyOptimizedMSAC\<close>: scoring and inliers\<close>

definition ComputeScore :: "real \<Rightarrow> real \<Rightarrow> real" where
  "ComputeScore squared_error squared_error_threshold =
     min squared_error squared_error_threshold"

text \<open>
  The loop of \<open>ScoreModel\<close>, from index \<open>i\<close> with the sum so far. The equation of a
  loop is not a default simplification rule: it is unfolded one iteration at a time.
\<close>

function ScoreModel_loop ::
  "('s, 'r) Externals \<Rightarrow> 'm Solver \<Rightarrow> 'm \<Rightarrow> real \<Rightarrow> int \<Rightarrow> real \<Rightarrow> real" where
  "ScoreModel_loop ext solver model squared_inlier_threshold i score =
     (if i < num_data solver then
        ScoreModel_loop ext solver model squared_inlier_threshold (i + 1)
          (double_add ext score
             (ComputeScore (EvaluateModelOnPoint solver model i) squared_inlier_threshold))
      else score)"
  by pat_completeness auto
termination
  by (relation "measure (\<lambda>(ext, solver, model, thr, i, score). nat (num_data solver - i))") auto

declare ScoreModel_loop.simps [simp del]

definition ScoreModel :: "('s, 'r) Externals \<Rightarrow> 'm Solver \<Rightarrow> 'm \<Rightarrow> real \<Rightarrow> real" where
  "ScoreModel ext solver model squared_inlier_threshold =
     ScoreModel_loop ext solver model squared_inlier_threshold 0 0"

text \<open>The loop of \<open>GetBestEstimatedModelId\<close>, with \<open>(*best_score, *best_model_id)\<close>.\<close>

function GetBestEstimatedModelId_loop ::
  "('s, 'r) Externals \<Rightarrow> 'm Solver \<Rightarrow> 'm list \<Rightarrow> real \<Rightarrow> int \<Rightarrow> real \<times> int \<Rightarrow> real \<times> int" where
  "GetBestEstimatedModelId_loop ext solver models squared_inlier_threshold m
       (best_score, best_model_id) =
     (if m < int (length models) then
        let score = ScoreModel ext solver (models ! nat m) squared_inlier_threshold
        in GetBestEstimatedModelId_loop ext solver models squared_inlier_threshold (m + 1)
             (if score < best_score then (score, m) else (best_score, best_model_id))
      else (best_score, best_model_id))"
  by pat_completeness auto
termination
  by (relation "measure (\<lambda>(ext, solver, models, thr, m, best). nat (int (length models) - m))")
    auto

declare GetBestEstimatedModelId_loop.simps [simp del]

definition GetBestEstimatedModelId ::
  "('s, 'r) Externals \<Rightarrow> 'm Solver \<Rightarrow> 'm list \<Rightarrow> real \<Rightarrow> real \<times> int" where
  "GetBestEstimatedModelId ext solver models squared_inlier_threshold =
     GetBestEstimatedModelId_loop ext solver models squared_inlier_threshold 0 (DBL_MAX, 0)"

text \<open>
  \<open>GetInliers\<close>: the counting loop (\<open>inliers == nullptr\<close>) and the collecting loop, which
  carries \<open>(num_inliers, *inliers)\<close>; \<open>push_back\<close> appends.
\<close>

function GetInliers_count :: "'m Solver \<Rightarrow> 'm \<Rightarrow> real \<Rightarrow> int \<Rightarrow> int \<Rightarrow> int" where
  "GetInliers_count solver model squared_inlier_threshold i num_inliers =
     (if i < num_data solver then
        GetInliers_count solver model squared_inlier_threshold (i + 1)
          (if EvaluateModelOnPoint solver model i < squared_inlier_threshold
           then num_inliers + 1 else num_inliers)
      else num_inliers)"
  by pat_completeness auto
termination
  by (relation "measure (\<lambda>(solver, model, thr, i, n). nat (num_data solver - i))") auto

declare GetInliers_count.simps [simp del]

function GetInliers_collect ::
  "'m Solver \<Rightarrow> 'm \<Rightarrow> real \<Rightarrow> int \<Rightarrow> int \<times> int list \<Rightarrow> int \<times> int list" where
  "GetInliers_collect solver model squared_inlier_threshold i (num_inliers, inliers) =
     (if i < num_data solver then
        GetInliers_collect solver model squared_inlier_threshold (i + 1)
          (if EvaluateModelOnPoint solver model i < squared_inlier_threshold
           then (num_inliers + 1, inliers @ [i]) else (num_inliers, inliers))
      else (num_inliers, inliers))"
  by pat_completeness auto
termination
  by (relation "measure (\<lambda>(solver, model, thr, i, acc). nat (num_data solver - i))") auto

declare GetInliers_collect.simps [simp del]

text \<open>
  The argument \<open>inliers\<close> is \<open>None\<close> for the null pointer and \<open>Some v\<close> for a pointer to
  the vector \<open>v\<close>, which is cleared first. The result is the returned count and the vector
  behind the pointer.
\<close>

definition GetInliers ::
  "'m Solver \<Rightarrow> 'm \<Rightarrow> real \<Rightarrow> int list option \<Rightarrow> int \<times> int list option" where
  "GetInliers solver model squared_inlier_threshold inliers =
     (case inliers of
        None \<Rightarrow> (GetInliers_count solver model squared_inlier_threshold 0 0, None)
      | Some v \<Rightarrow>
          (let (num_inliers, v') = GetInliers_collect solver model squared_inlier_threshold 0 (0, [])
           in (num_inliers, Some v')))"

definition UpdateBestModel :: "real \<Rightarrow> 'm \<Rightarrow> real \<times> 'm \<Rightarrow> real \<times> 'm" where
  "UpdateBestModel score_curr m_curr best =
     (case best of (score_best, m_best) \<Rightarrow>
        if score_curr < score_best then (score_curr, m_curr) else (score_best, m_best))"

section \<open>\<open>LocallyOptimizedMSAC\<close>: local optimization\<close>

text \<open>
  \<open>LeastSquaresFit\<close> returns the generator and the model behind the two pointers. The
  vector \<open>inliers\<close> is local and passed to \<open>GetInliers\<close> by address, so the result of
  \<open>GetInliers\<close> is \<open>Some\<close> of the vector.
\<close>

definition LeastSquaresFit ::
  "('s, 'r) Externals \<Rightarrow> LORansacOptions \<Rightarrow> real \<Rightarrow> 'm Solver \<Rightarrow> 'r \<Rightarrow> 'm \<Rightarrow> 'r \<times> 'm" where
  "LeastSquaresFit ext options thresh solver rng model =
     (let kLSqSampleSize = min_sample_multiplicator_opt options * min_sample_size solver;
          (num_inliers, filled) = GetInliers solver model thresh (Some []);
          lsq_data_size = min kLSqSampleSize num_inliers;
          (rng', inliers) = RandomShuffleAndResize ext lsq_data_size rng (the filled)
      in (rng', LeastSquares solver inliers model))"

text \<open>
  The inner loop of \<open>LocalOptimization\<close> (iterative least squares), from pass \<open>i\<close>. The
  state is \<open>thresh\<close>, the generator, \<open>m_non_min\<close> and the pair
  \<open>(*score_refined_model, *refined_model)\<close>.
\<close>

function LocalOptimization_lsq_loop ::
  "('s, 'r) Externals \<Rightarrow> LORansacOptions \<Rightarrow> 'm Solver \<Rightarrow> real \<Rightarrow> int \<Rightarrow>
     real \<times> 'r \<times> 'm \<times> (real \<times> 'm) \<Rightarrow> real \<times> 'r \<times> 'm \<times> (real \<times> 'm)" where
  "LocalOptimization_lsq_loop ext options solver thresh_mult_update i (thresh, rng, m_non_min, refined) =
     (if i < num_lsq_iterations_opt options then
        let (rng', m_non_min') = LeastSquaresFit ext options thresh solver rng m_non_min;
            score = ScoreModel ext solver m_non_min' (squared_inlier_threshold_opt options);
            refined' = UpdateBestModel score m_non_min' refined
        in LocalOptimization_lsq_loop ext options solver thresh_mult_update (i + 1)
             (double_sub ext thresh thresh_mult_update, rng', m_non_min', refined')
      else (thresh, rng, m_non_min, refined))"
  by pat_completeness auto
termination
  by (relation "measure (\<lambda>(ext, options, solver, upd, i, s). nat (num_lsq_iterations_opt options - i))")
    auto

declare LocalOptimization_lsq_loop.simps [simp del]

text \<open>
  One LO step, the body of the loop over \<open>r\<close>. \<open>continue\<close> keeps the refined pair; the
  generator has advanced by the shuffle. The divisor \<open>num_lsq_iterations_ - 1\<close> is an
  \<open>int\<close> converted to \<open>double\<close> (exactly), so the division is a division of doubles.
  When it is zero the C++ quotient is an infinity or a NaN, which the model does not
  have: the quotient is only subtracted from \<open>thresh\<close> after a pass, and with
  \<open>num_lsq_iterations_ = 1\<close> no pass follows the first, so no result depends on it.
\<close>

definition LocalOptimization_step ::
  "('s, 'r) Externals \<Rightarrow> LORansacOptions \<Rightarrow> 'm Solver \<Rightarrow> int list \<Rightarrow> int \<Rightarrow>
     'r \<times> (real \<times> 'm) \<Rightarrow> 'r \<times> (real \<times> 'm)" where
  "LocalOptimization_step ext options solver inliers_base kNonMinSampleSize st =
     (case st of (rng, refined) \<Rightarrow>
        let kSqInThresh = squared_inlier_threshold_opt options;
            kThreshMult = threshold_multiplier_opt options;
            (rng1, sample) = RandomShuffleAndResize ext kNonMinSampleSize rng inliers_base;
            (ok, m_non_min) = NonMinimalSolver solver sample (default_model solver)
        in if \<not> ok then (rng1, refined)
           else
             let score = ScoreModel ext solver m_non_min kSqInThresh;
                 refined1 = UpdateBestModel score m_non_min refined;
                 (rng2, m_non_min2) = LeastSquaresFit ext options kSqInThresh solver rng1 m_non_min;
                 thresh = double_mul ext kThreshMult kSqInThresh;
                 thresh_mult_update =
                   double_div ext (double_mul ext (double_sub ext kThreshMult 1) kSqInThresh)
                     (real_of_int (num_lsq_iterations_opt options - 1));
                 (thresh', rng3, m_non_min3, refined3) =
                   LocalOptimization_lsq_loop ext options solver thresh_mult_update 0
                     (thresh, rng2, m_non_min2, refined1)
             in (rng3, refined3))"

function LocalOptimization_loop ::
  "('s, 'r) Externals \<Rightarrow> LORansacOptions \<Rightarrow> 'm Solver \<Rightarrow> int list \<Rightarrow> int \<Rightarrow> int \<Rightarrow>
     'r \<times> (real \<times> 'm) \<Rightarrow> 'r \<times> (real \<times> 'm)" where
  "LocalOptimization_loop ext options solver inliers_base kNonMinSampleSize r st =
     (if r < num_lo_steps_opt options then
        LocalOptimization_loop ext options solver inliers_base kNonMinSampleSize (r + 1)
          (LocalOptimization_step ext options solver inliers_base kNonMinSampleSize st)
      else st)"
  by pat_completeness auto
termination
  by (relation "measure (\<lambda>(ext, options, solver, base, k, r, st). nat (num_lo_steps_opt options - r))")
    auto

declare LocalOptimization_loop.simps [simp del]

text \<open>The result is \<open>(*refined_model, *score_refined_model)\<close>.\<close>

definition LocalOptimization ::
  "('s, 'r) Externals \<Rightarrow> LORansacOptions \<Rightarrow> 'm Solver \<Rightarrow> 'm \<Rightarrow> real \<Rightarrow> 'm \<times> real" where
  "LocalOptimization ext options solver best_minimal_model score_best_minimal_model =
     (let refined = (score_best_minimal_model, best_minimal_model);
          kNumData = num_data solver;
          kMinNonMinSampleSize = non_minimal_sample_size solver
      in if kMinNonMinSampleSize > kNumData then (snd refined, fst refined)
         else
           let kSqInThresh = squared_inlier_threshold_opt options;
               kThreshMult = threshold_multiplier_opt options;
               rng = mt19937_seed ext (random_seed_opt options);
               (rng1, m_init) =
                 LeastSquaresFit ext options (double_mul ext kSqInThresh kThreshMult) solver rng
                   best_minimal_model;
               score = ScoreModel ext solver m_init kSqInThresh;
               refined1 = UpdateBestModel score m_init refined;
               (num_inliers_base, filled) = GetInliers solver m_init kSqInThresh (Some []);
               inliers_base = the filled;
               kNonMinSampleSize =
                 max kMinNonMinSampleSize
                   (min (kMinNonMinSampleSize * non_min_sample_multiplier_opt options)
                      (int (length inliers_base) div 2));
               (rng2, refined2) =
                 LocalOptimization_loop ext options solver inliers_base kNonMinSampleSize 0
                   (rng1, refined1)
           in (snd refined2, fst refined2))"

section \<open>\<open>LocallyOptimizedMSAC::EstimateModel\<close>\<close>

text \<open>
  The variables that live across the iterations of the sampling loop: \<open>*statistics\<close>
  (whose \<open>num_iterations\<close> is the loop counter), \<open>*best_model\<close>, the sampler, the local
  \<open>max_num_iterations\<close>, \<open>best_minimal_model\<close>, \<open>best_min_model_score\<close>,
  \<open>minimal_sample\<close> and \<open>estimated_models\<close>.
\<close>

record ('m, 's) EstimateModel_state =
  st_stats :: RansacStatistics
  st_best_model :: 'm
  st_sampler :: 's
  st_max_num_iterations :: uint32
  st_best_minimal_model :: 'm
  st_best_min_model_score :: real
  st_minimal_sample :: "int list"
  st_estimated_models :: "'m list"

text \<open>
  The branch taken when \<open>best_local_score < best_min_model_score\<close>. The call of
  \<open>UpdateBestModel\<close> is as the source has it: its second argument is
  \<open>best_minimal_model\<close>; \<open>refined_model\<close> is not read again.
\<close>

definition EstimateModel_new_best ::
  "('s, 'r) Externals \<Rightarrow> LORansacOptions \<Rightarrow> 'm Solver \<Rightarrow> real \<Rightarrow> int \<Rightarrow>
     ('m, 's) EstimateModel_state \<Rightarrow> ('m, 's) EstimateModel_state" where
  "EstimateModel_new_best ext options solver best_local_score best_local_model_id st =
     (let kMinSampleSize = min_sample_size solver;
          kNumData = num_data solver;
          kSqrInlierThresh = squared_inlier_threshold_opt options;
          best_min_model_score = best_local_score;
          best_minimal_model = st_estimated_models st ! nat best_local_model_id;
          (refined_model, score_refined_model) =
            LocalOptimization ext options solver best_minimal_model best_min_model_score;
          (score_best, m_best) =
            UpdateBestModel score_refined_model best_minimal_model
              (best_model_score (st_stats st), st_best_model st);
          (num_inliers, filled) =
            GetInliers solver m_best kSqrInlierThresh (Some (inlier_indices (st_stats st)));
          ratio = double_div ext (real_of_int num_inliers) (real_of_int kNumData);
          stats' = (st_stats st)\<lparr>best_model_score := score_best, best_num_inliers := num_inliers,
                     inlier_indices := the filled, inlier_ratio := ratio\<rparr>
      in st\<lparr>st_best_min_model_score := best_min_model_score,
             st_best_minimal_model := best_minimal_model,
             st_best_model := m_best,
             st_stats := stats',
             st_max_num_iterations :=
               NumRequiredIterations (undefined_conversion ext) ratio
                 (double_sub ext 1 (success_probability_opt options)) kMinSampleSize
                 (min_num_iterations_opt options) (max_num_iterations_opt options)\<rparr>)"

text \<open>The body of the sampling loop, without the increment of the counter.\<close>

definition EstimateModel_iteration ::
  "('s, 'r) Externals \<Rightarrow> LORansacOptions \<Rightarrow> 'm Solver \<Rightarrow>
     ('m, 's) EstimateModel_state \<Rightarrow> ('m, 's) EstimateModel_state" where
  "EstimateModel_iteration ext options solver st =
     (let (sampler', minimal_sample') = Sample ext (st_sampler st) (st_minimal_sample st);
          (kNumEstimatedModels, estimated_models') =
            MinimalSolver solver minimal_sample' (st_estimated_models st);
          st1 = st\<lparr>st_sampler := sampler', st_minimal_sample := minimal_sample',
                  st_estimated_models := estimated_models'\<rparr>
      in if kNumEstimatedModels \<le> 0 then st1
         else
           let (best_local_score, best_local_model_id) =
                 GetBestEstimatedModelId ext solver estimated_models'
                   (squared_inlier_threshold_opt options)
           in if best_local_score < st_best_min_model_score st1
              then EstimateModel_new_best ext options solver best_local_score best_local_model_id st1
              else st1)"

definition increment_num_iterations ::
  "('m, 's) EstimateModel_state \<Rightarrow> ('m, 's) EstimateModel_state" where
  "increment_num_iterations st =
     st\<lparr>st_stats := (st_stats st)\<lparr>num_iterations := num_iterations (st_stats st) + 1\<rparr>\<rparr>"

text \<open>
  Neither branch of the body touches the counter, and a recomputed budget is at most the
  larger of the two option bounds: the facts the termination of the loop rests on.
\<close>

lemma NumRequiredIterations_le_max:
  "NumRequiredIterations undef ratio p s lo hi \<le> max lo hi"
proof -
  have "max lo (min c hi) \<le> max lo hi" for c :: uint32
    by (auto simp add: max_def min_def)
  then show ?thesis
    by (simp add: NumRequiredIterations_def Let_def)
qed

lemma NumRequiredIterations_ge_min:
  "lo \<le> hi \<Longrightarrow> lo \<le> NumRequiredIterations undef ratio p s lo hi"
  by (simp add: NumRequiredIterations_def Let_def)

lemma EstimateModel_new_best_counter:
  "num_iterations (st_stats (EstimateModel_new_best ext options solver sc k st)) =
     num_iterations (st_stats st)"
  by (simp add: EstimateModel_new_best_def Let_def split: prod.splits)

lemma EstimateModel_new_best_budget:
  "st_max_num_iterations (EstimateModel_new_best ext options solver sc k st) =
     NumRequiredIterations (undefined_conversion ext)
       (inlier_ratio (st_stats (EstimateModel_new_best ext options solver sc k st)))
       (double_sub ext 1 (success_probability_opt options)) (min_sample_size solver)
       (min_num_iterations_opt options) (max_num_iterations_opt options)"
  by (simp add: EstimateModel_new_best_def Let_def split: prod.splits)

lemma EstimateModel_iteration_counter:
  "num_iterations (st_stats (EstimateModel_iteration ext options solver st)) =
     num_iterations (st_stats st)"
  by (simp add: EstimateModel_iteration_def Let_def EstimateModel_new_best_counter
      split: prod.splits)

lemma EstimateModel_iteration_budget:
  "st_max_num_iterations (EstimateModel_iteration ext options solver st) = st_max_num_iterations st
   \<or> (\<exists>ratio. st_max_num_iterations (EstimateModel_iteration ext options solver st) =
        NumRequiredIterations (undefined_conversion ext) ratio
          (double_sub ext 1 (success_probability_opt options)) (min_sample_size solver)
          (min_num_iterations_opt options) (max_num_iterations_opt options))"
  by (auto simp add: EstimateModel_iteration_def Let_def EstimateModel_new_best_budget
      split: prod.splits)

lemma EstimateModel_iteration_budget_le:
  "st_max_num_iterations (EstimateModel_iteration ext options solver st)
     \<le> max (st_max_num_iterations st)
         (max (min_num_iterations_opt options) (max_num_iterations_opt options))"
proof -
  let ?B = "max (min_num_iterations_opt options) (max_num_iterations_opt options)"
  from EstimateModel_iteration_budget [of ext options solver st]
  consider "st_max_num_iterations (EstimateModel_iteration ext options solver st)
      = st_max_num_iterations st"
    | "st_max_num_iterations (EstimateModel_iteration ext options solver st) \<le> ?B"
    using NumRequiredIterations_le_max by metis
  then show ?thesis
  proof cases
    case 1
    then show ?thesis by simp
  next
    case 2
    then show ?thesis by (rule max.coboundedI2)
  qed
qed

text \<open>
  The read \<open>estimated_models[best_local_model_id]\<close> is in range whenever it happens: the
  branch is entered with \<open>best_local_score\<close> below \<open>best_min_model_score\<close>, which never
  exceeds \<open>DBL_MAX\<close>, and a best score below \<open>DBL_MAX\<close> comes with the index of a model of
  the vector.
\<close>

lemma GetBestEstimatedModelId_loop_result:
  "0 \<le> m \<Longrightarrow>
   GetBestEstimatedModelId_loop ext solver models thr m best = best
   \<or> (fst (GetBestEstimatedModelId_loop ext solver models thr m best) < fst best
       \<and> m \<le> snd (GetBestEstimatedModelId_loop ext solver models thr m best)
       \<and> snd (GetBestEstimatedModelId_loop ext solver models thr m best) < int (length models))"
proof (induction ext solver models thr m best rule: GetBestEstimatedModelId_loop.induct)
  case (1 ext solver models thr m best_score best_model_id)
  show ?case
  proof (cases "m < int (length models)")
    case True
    let ?score = "ScoreModel ext solver (models ! nat m) thr"
    let ?best' = "if ?score < best_score then (?score, m) else (best_score, best_model_id)"
    have step: "GetBestEstimatedModelId_loop ext solver models thr m (best_score, best_model_id) =
        GetBestEstimatedModelId_loop ext solver models thr (m + 1) ?best'"
      using True by (subst GetBestEstimatedModelId_loop.simps) (simp add: Let_def)
    from "1.IH" [OF True refl] "1.prems"
    have ih: "GetBestEstimatedModelId_loop ext solver models thr (m + 1) ?best' = ?best'
        \<or> (fst (GetBestEstimatedModelId_loop ext solver models thr (m + 1) ?best') < fst ?best'
           \<and> m + 1 \<le> snd (GetBestEstimatedModelId_loop ext solver models thr (m + 1) ?best')
           \<and> snd (GetBestEstimatedModelId_loop ext solver models thr (m + 1) ?best') < int (length models))"
      by simp
    show ?thesis
      unfolding step using ih True by (auto split: if_splits)
  next
    case False
    have "GetBestEstimatedModelId_loop ext solver models thr m (best_score, best_model_id) =
        (best_score, best_model_id)"
      using False by (subst GetBestEstimatedModelId_loop.simps) simp
    then show ?thesis by simp
  qed
qed

lemma GetBestEstimatedModelId_index_in_range:
  assumes "fst (GetBestEstimatedModelId ext solver models thr) < DBL_MAX"
  shows "0 \<le> snd (GetBestEstimatedModelId ext solver models thr)
     \<and> nat (snd (GetBestEstimatedModelId ext solver models thr)) < length models"
  using GetBestEstimatedModelId_loop_result [of 0 ext solver models thr "(DBL_MAX, 0)"] assms
  by (auto simp add: GetBestEstimatedModelId_def)

lemma EstimateModel_iteration_best_min_model_score:
  "st_best_min_model_score st \<le> DBL_MAX \<Longrightarrow>
     st_best_min_model_score (EstimateModel_iteration ext options solver st) \<le> DBL_MAX"
  by (auto simp add: EstimateModel_iteration_def EstimateModel_new_best_def Let_def
      split: prod.splits)

lemma unat_increment: "t < m \<Longrightarrow> unat (t + 1) = unat t + 1" for t m :: uint32
  by unat_arith

function EstimateModel_loop ::
  "('s, 'r) Externals \<Rightarrow> LORansacOptions \<Rightarrow> 'm Solver \<Rightarrow>
     ('m, 's) EstimateModel_state \<Rightarrow> ('m, 's) EstimateModel_state" where
  "EstimateModel_loop ext options solver st =
     (if num_iterations (st_stats st) < st_max_num_iterations st then
        EstimateModel_loop ext options solver
          (increment_num_iterations (EstimateModel_iteration ext options solver st))
      else st)"
  by pat_completeness auto
termination
proof (relation "measure (\<lambda>(ext, options, solver, st).
    unat (max (st_max_num_iterations st)
            (max (min_num_iterations_opt options) (max_num_iterations_opt options)))
    - unat (num_iterations (st_stats st)))", goal_cases)
  case 1
  show ?case by simp
next
  case (2 ext options solver st)
  let ?B = "max (min_num_iterations_opt options) (max_num_iterations_opt options)"
  let ?t = "num_iterations (st_stats st)"
  let ?st' = "EstimateModel_iteration ext options solver st"
  have lt: "?t < max (st_max_num_iterations st) ?B"
    using 2 by (simp add: less_max_iff_disj)
  have cnt: "num_iterations (st_stats (increment_num_iterations ?st')) = ?t + 1"
    by (simp add: increment_num_iterations_def EstimateModel_iteration_counter)
  have bud: "max (st_max_num_iterations (increment_num_iterations ?st')) ?B
      \<le> max (st_max_num_iterations st) ?B"
    using EstimateModel_iteration_budget_le [of ext options solver st]
    by (simp add: increment_num_iterations_def)
  have suc: "unat (?t + 1) = unat ?t + 1"
    using lt by (rule unat_increment)
  have lt': "unat ?t < unat (max (st_max_num_iterations st) ?B)"
    using lt by (simp add: word_less_nat_alt)
  have bud': "unat (max (st_max_num_iterations (increment_num_iterations ?st')) ?B)
      \<le> unat (max (st_max_num_iterations st) ?B)"
    using bud by (simp add: word_le_nat_alt)
  have "unat (max (st_max_num_iterations (increment_num_iterations ?st')) ?B) - (unat ?t + 1)
      < unat (max (st_max_num_iterations st) ?B) - unat ?t"
    using lt' bud' by linarith
  then show ?case
    by (simp add: cnt suc)
qed

declare EstimateModel_loop.simps [simp del]

text \<open>
  \<open>EstimateModel\<close> returns its \<open>int\<close> result, \<open>*best_model\<close> and \<open>*statistics\<close>.
  \<open>minimal_sample\<close> starts as \<open>kMinSampleSize\<close> zeros and \<open>estimated_models\<close> empty;
  \<open>best_minimal_model\<close> is default-constructed.
\<close>

definition EstimateModel ::
  "('s, 'r) Externals \<Rightarrow> LORansacOptions \<Rightarrow> 'm Solver \<Rightarrow> 'm \<Rightarrow> RansacStatistics \<Rightarrow>
     int \<times> 'm \<times> RansacStatistics" where
  "EstimateModel ext options solver best_model statistics =
     (let stats = ResetStatistics statistics;
          kMinSampleSize = min_sample_size solver;
          kNumData = num_data solver
      in if kMinSampleSize > kNumData \<or> kMinSampleSize \<le> 0 then (0, best_model, stats)
         else
           let st = EstimateModel_loop ext options solver
                 \<lparr>st_stats = stats\<lparr>num_iterations := 0\<rparr>,
                  st_best_model = best_model,
                  st_sampler = UniformSampling ext (random_seed_opt options) kNumData kMinSampleSize,
                  st_max_num_iterations =
                    max (max_num_iterations_opt options) (min_num_iterations_opt options),
                  st_best_minimal_model = default_model solver,
                  st_best_min_model_score = DBL_MAX,
                  st_minimal_sample = replicate (nat kMinSampleSize) 0,
                  st_estimated_models = []\<rparr>
           in (best_num_inliers (st_stats st), st_best_model st, st_stats st))"

text \<open>
  Whether a run improves on its initial state. An iteration improves when the minimal
  solver reports a model and the best local score is below \<open>best_min_model_score\<close>, the
  test in front of the branch that stores a model; a run improves when the early return
  is not taken and some iteration of the loop improves. The loop is followed as
  \<open>EstimateModel_loop\<close> follows it.
\<close>

definition EstimateModel_initial_state ::
  "('s, 'r) Externals \<Rightarrow> LORansacOptions \<Rightarrow> 'm Solver \<Rightarrow> 'm \<Rightarrow> RansacStatistics \<Rightarrow>
     ('m, 's) EstimateModel_state" where
  "EstimateModel_initial_state ext options solver best_model statistics =
     \<lparr>st_stats = (ResetStatistics statistics)\<lparr>num_iterations := 0\<rparr>,
      st_best_model = best_model,
      st_sampler =
        UniformSampling ext (random_seed_opt options) (num_data solver) (min_sample_size solver),
      st_max_num_iterations =
        max (max_num_iterations_opt options) (min_num_iterations_opt options),
      st_best_minimal_model = default_model solver,
      st_best_min_model_score = DBL_MAX,
      st_minimal_sample = replicate (nat (min_sample_size solver)) 0,
      st_estimated_models = []\<rparr>"

definition EstimateModel_iteration_improves ::
  "('s, 'r) Externals \<Rightarrow> LORansacOptions \<Rightarrow> 'm Solver \<Rightarrow> ('m, 's) EstimateModel_state \<Rightarrow> bool" where
  "EstimateModel_iteration_improves ext options solver st =
     (let (sampler', minimal_sample') = Sample ext (st_sampler st) (st_minimal_sample st);
          (kNumEstimatedModels, estimated_models') =
            MinimalSolver solver minimal_sample' (st_estimated_models st)
      in 0 < kNumEstimatedModels
         \<and> fst (GetBestEstimatedModelId ext solver estimated_models'
                  (squared_inlier_threshold_opt options))
             < st_best_min_model_score st)"

function EstimateModel_loop_improves ::
  "('s, 'r) Externals \<Rightarrow> LORansacOptions \<Rightarrow> 'm Solver \<Rightarrow> ('m, 's) EstimateModel_state \<Rightarrow> bool" where
  "EstimateModel_loop_improves ext options solver st =
     (if num_iterations (st_stats st) < st_max_num_iterations st then
        EstimateModel_iteration_improves ext options solver st
        \<or> EstimateModel_loop_improves ext options solver
             (increment_num_iterations (EstimateModel_iteration ext options solver st))
      else False)"
  by pat_completeness auto
termination
proof (relation "measure (\<lambda>(ext, options, solver, st).
    unat (max (st_max_num_iterations st)
            (max (min_num_iterations_opt options) (max_num_iterations_opt options)))
    - unat (num_iterations (st_stats st)))", goal_cases)
  case 1
  show ?case by simp
next
  case (2 ext options solver st)
  let ?B = "max (min_num_iterations_opt options) (max_num_iterations_opt options)"
  let ?t = "num_iterations (st_stats st)"
  let ?st' = "EstimateModel_iteration ext options solver st"
  have lt: "?t < max (st_max_num_iterations st) ?B"
    using 2 by (simp add: less_max_iff_disj)
  have cnt: "num_iterations (st_stats (increment_num_iterations ?st')) = ?t + 1"
    by (simp add: increment_num_iterations_def EstimateModel_iteration_counter)
  have bud: "max (st_max_num_iterations (increment_num_iterations ?st')) ?B
      \<le> max (st_max_num_iterations st) ?B"
    using EstimateModel_iteration_budget_le [of ext options solver st]
    by (simp add: increment_num_iterations_def)
  have suc: "unat (?t + 1) = unat ?t + 1"
    using lt by (rule unat_increment)
  have lt': "unat ?t < unat (max (st_max_num_iterations st) ?B)"
    using lt by (simp add: word_less_nat_alt)
  have bud': "unat (max (st_max_num_iterations (increment_num_iterations ?st')) ?B)
      \<le> unat (max (st_max_num_iterations st) ?B)"
    using bud by (simp add: word_le_nat_alt)
  have "unat (max (st_max_num_iterations (increment_num_iterations ?st')) ?B) - (unat ?t + 1)
      < unat (max (st_max_num_iterations st) ?B) - unat ?t"
    using lt' bud' by linarith
  then show ?case
    by (simp add: cnt suc)
qed

declare EstimateModel_loop_improves.simps [simp del]

definition EstimateModel_improves ::
  "('s, 'r) Externals \<Rightarrow> LORansacOptions \<Rightarrow> 'm Solver \<Rightarrow> 'm \<Rightarrow> RansacStatistics \<Rightarrow> bool" where
  "EstimateModel_improves ext options solver best_model statistics =
     (\<not> (min_sample_size solver > num_data solver \<or> min_sample_size solver \<le> 0)
      \<and> EstimateModel_loop_improves ext options solver
           (EstimateModel_initial_state ext options solver best_model statistics))"

section \<open>The LO step in the words of the specification\<close>

text \<open>
  These definitions follow the specification, not the source; they are what the
  functions of the source are compared with. A fit against a threshold \<open>\<theta>\<close> collects the
  indices with residual below \<open>\<theta>\<close> in ascending order, shuffles, truncates to
  \<open>min(min_sample_multiplicator \<cdot> min_sample_size, #inliers)\<close> and hands them to
  \<open>LeastSquares\<close>. The score of a model is the sum over all points of
  \<open>min(squared_error, \<tau>\<^sup>2)\<close>, added in index order. An update keeps the incumbent unless
  the new score is strictly lower.
\<close>

definition spec_inliers :: "'m Solver \<Rightarrow> 'm \<Rightarrow> real \<Rightarrow> int list" where
  "spec_inliers solver model \<theta> =
     filter (\<lambda>i. EvaluateModelOnPoint solver model i < \<theta>) [0..num_data solver - 1]"

definition spec_fit ::
  "('s, 'r) Externals \<Rightarrow> LORansacOptions \<Rightarrow> 'm Solver \<Rightarrow> real \<Rightarrow> 'r \<Rightarrow> 'm \<Rightarrow> 'r \<times> 'm" where
  "spec_fit ext options solver \<theta> rng model =
     (let inl = spec_inliers solver model \<theta>;
          k = min (min_sample_multiplicator_opt options * min_sample_size solver) (int (length inl));
          (rng', chosen) = RandomShuffleAndResize ext k rng inl
      in (rng', LeastSquares solver chosen model))"

definition spec_score :: "('s, 'r) Externals \<Rightarrow> 'm Solver \<Rightarrow> 'm \<Rightarrow> real \<Rightarrow> real" where
  "spec_score ext solver model \<tau>2 =
     fold (\<lambda>i s. double_add ext s (min (EvaluateModelOnPoint solver model i) \<tau>2))
       [0..num_data solver - 1] 0"

definition spec_update :: "real \<Rightarrow> 'm \<Rightarrow> real \<times> 'm \<Rightarrow> real \<times> 'm" where
  "spec_update score model best = (if score < fst best then (score, model) else best)"

text \<open>
  The threshold of pass \<open>i\<close> (counted from 0) of the annealing, as the specification
  words it: \<open>\<theta>\<close> starts at \<open>m \<cdot> \<tau>\<^sup>2\<close> and drops by \<open>(m - 1) \<cdot> \<tau>\<^sup>2 / (num_lsq_iterations - 1)\<close>
  after each pass. \<open>spec_threshold\<close> is that number; \<open>rounded_threshold\<close> is the same
  schedule with every operation performed by the arithmetic of the platform.
\<close>

definition spec_threshold :: "LORansacOptions \<Rightarrow> nat \<Rightarrow> real" where
  "spec_threshold options i =
     threshold_multiplier_opt options * squared_inlier_threshold_opt options
     - real i * ((threshold_multiplier_opt options - 1) * squared_inlier_threshold_opt options
                  / real_of_int (num_lsq_iterations_opt options - 1))"

primrec rounded_threshold :: "('s, 'r) Externals \<Rightarrow> LORansacOptions \<Rightarrow> nat \<Rightarrow> real" where
  "rounded_threshold ext options 0 =
     double_mul ext (threshold_multiplier_opt options) (squared_inlier_threshold_opt options)"
| "rounded_threshold ext options (Suc i) =
     double_sub ext (rounded_threshold ext options i)
       (double_div ext
          (double_mul ext (double_sub ext (threshold_multiplier_opt options) 1)
             (squared_inlier_threshold_opt options))
          (real_of_int (num_lsq_iterations_opt options - 1)))"

text \<open>
  A pass fits against the inliers under its threshold, scores under \<open>\<tau>\<^sup>2\<close> and updates the
  refined best. \<open>spec_LO_step\<close> is the LO step of the specification: shuffle and truncate
  \<open>I_base\<close>, call \<open>NonMinimalSolver\<close>, score the candidate and update, then
  \<open>num_lsq_iterations\<close> passes under \<open>spec_threshold\<close>. \<open>spec_LO_step_prefit\<close> differs in two
  places: the candidate is fitted once under \<open>\<tau>\<^sup>2\<close> before the passes, and the passes run
  under \<open>rounded_threshold\<close>.
\<close>

definition spec_pass ::
  "('s, 'r) Externals \<Rightarrow> LORansacOptions \<Rightarrow> 'm Solver \<Rightarrow> (nat \<Rightarrow> real) \<Rightarrow> nat \<Rightarrow>
     'r \<times> 'm \<times> (real \<times> 'm) \<Rightarrow> 'r \<times> 'm \<times> (real \<times> 'm)" where
  "spec_pass ext options solver \<theta> i st =
     (case st of (rng, model, best) \<Rightarrow>
        let (rng', model') = spec_fit ext options solver (\<theta> i) rng model;
            score = spec_score ext solver model' (squared_inlier_threshold_opt options)
        in (rng', model', spec_update score model' best))"

definition spec_LO_step ::
  "('s, 'r) Externals \<Rightarrow> LORansacOptions \<Rightarrow> 'm Solver \<Rightarrow> int list \<Rightarrow> int \<Rightarrow>
     'r \<times> (real \<times> 'm) \<Rightarrow> 'r \<times> (real \<times> 'm)" where
  "spec_LO_step ext options solver inliers_base k st =
     (case st of (rng, best) \<Rightarrow>
        let (rng1, chosen) = RandomShuffleAndResize ext k rng inliers_base;
            (ok, candidate) = NonMinimalSolver solver chosen (default_model solver)
        in if \<not> ok then (rng1, best)
           else
             let \<tau>2 = squared_inlier_threshold_opt options;
                 best1 = spec_update (spec_score ext solver candidate \<tau>2) candidate best;
                 (rng3, model3, best3) =
                   fold (spec_pass ext options solver (spec_threshold options))
                     [0..<nat (num_lsq_iterations_opt options)] (rng1, candidate, best1)
             in (rng3, best3))"

definition spec_LO_step_prefit ::
  "('s, 'r) Externals \<Rightarrow> LORansacOptions \<Rightarrow> 'm Solver \<Rightarrow> int list \<Rightarrow> int \<Rightarrow>
     'r \<times> (real \<times> 'm) \<Rightarrow> 'r \<times> (real \<times> 'm)" where
  "spec_LO_step_prefit ext options solver inliers_base k st =
     (case st of (rng, best) \<Rightarrow>
        let (rng1, chosen) = RandomShuffleAndResize ext k rng inliers_base;
            (ok, candidate) = NonMinimalSolver solver chosen (default_model solver)
        in if \<not> ok then (rng1, best)
           else
             let \<tau>2 = squared_inlier_threshold_opt options;
                 best1 = spec_update (spec_score ext solver candidate \<tau>2) candidate best;
                 (rng2, fitted) = spec_fit ext options solver \<tau>2 rng1 candidate;
                 (rng3, model3, best3) =
                   fold (spec_pass ext options solver (rounded_threshold ext options))
                     [0..<nat (num_lsq_iterations_opt options)] (rng2, fitted, best1)
             in (rng3, best3))"

section \<open>Binary64 rounding\<close>

text \<open>
  Rounding to the nearest binary64 value, ties to even: the value is scaled by the unit
  in the last place of its binade, rounded to an integer and scaled back. The exponent
  of the binade is found by bisection between \<open>-1022\<close>, where the subnormal numbers share
  the unit \<open>2\<^sup>-\<^sup>1\<^sup>0\<^sup>7\<^sup>4\<close>, and 1023. Beyond the largest finite double, where the IEEE result
  is an infinity, the exponent stays 1023 and the result is a finite number above
  \<open>DBL_MAX\<close>; no statement below evaluates the rounding there.
\<close>

definition round_to_even :: "real \<Rightarrow> int" where
  "round_to_even y =
     (let f = \<lfloor>y\<rfloor>; r = y - of_int f
      in if r < 1 / 2 then f else if 1 / 2 < r then f + 1 else if even f then f else f + 1)"

definition pow2 :: "int \<Rightarrow> real" where
  "pow2 e = (if 0 \<le> e then 2 ^ nat e else 1 / 2 ^ nat (- e))"

fun binade_search :: "nat \<Rightarrow> int \<Rightarrow> int \<Rightarrow> real \<Rightarrow> int" where
  "binade_search 0 lo hi x = lo"
| "binade_search (Suc n) lo hi x =
     (if hi \<le> lo then lo
      else let mid = (lo + hi + 1) div 2
           in if pow2 mid \<le> x then binade_search n mid hi x
              else binade_search n lo (mid - 1) x)"

definition binary64_exponent :: "real \<Rightarrow> int" where
  "binary64_exponent x =
     (if x < pow2 (- 1022) then - 1022 else binade_search 11 (- 1022) 1023 x)"

definition binary64_round :: "real \<Rightarrow> real" where
  "binary64_round x =
     (if x = 0 then 0
      else let u = pow2 (binary64_exponent \<bar>x\<bar> - 52)
           in u * of_int (round_to_even (x / u)))"

section \<open>The sum of \<open>N\<close> thresholds\<close>

text \<open>
  \<open>threshold_sum ext \<tau>\<^sup>2 n\<close> is what \<open>ScoreModel\<close> accumulates over \<open>n\<close> points that all
  contribute \<open>\<tau>\<^sup>2\<close>: \<open>0 + \<tau>\<^sup>2 + \<dots> + \<tau>\<^sup>2\<close> with the addition of the platform. An addition is
  monotone when larger arguments give a result that is not smaller, and \<open>0 + 0 = 0\<close>; a
  correctly rounded addition is.
\<close>

primrec threshold_sum :: "('s, 'r) Externals \<Rightarrow> real \<Rightarrow> nat \<Rightarrow> real" where
  "threshold_sum ext thr 0 = 0"
| "threshold_sum ext thr (Suc n) = double_add ext (threshold_sum ext thr n) thr"

definition monotone_addition :: "('s, 'r) Externals \<Rightarrow> bool" where
  "monotone_addition ext \<longleftrightarrow>
     double_add ext 0 0 = 0
     \<and> (\<forall>a b c d. a \<le> b \<and> c \<le> d \<longrightarrow> double_add ext a c \<le> double_add ext b d)"

section \<open>Concrete inputs\<close>

text \<open>
  Stand-ins for the parts outside \<open>ransac.h\<close>: a sampler that hands back the first
  \<open>kMinSampleSize\<close> indices, a shuffle that keeps the order and truncates, a
  conversion that yields 0 where the C++ leaves it undefined, and arithmetic without
  rounding. Both states are \<open>unit\<close>.
\<close>

definition plain_externals :: "(unit, unit) Externals" where
  "plain_externals =
     \<lparr>UniformSampling = (\<lambda>seed n k. ()),
      Sample = (\<lambda>s v. (s, map int [0..<length v])),
      mt19937_seed = (\<lambda>seed. ()),
      RandomShuffleAndResize = (\<lambda>k rng v. (rng, take (nat k) v)),
      undefined_conversion = (\<lambda>ratio p s. 0),
      double_add = (\<lambda>a b. a + b), double_sub = (\<lambda>a b. a - b),
      double_mul = (\<lambda>a b. a * b), double_div = (\<lambda>a b. a / b)\<rparr>"

text \<open>The same stand-ins with binary64 arithmetic: every operation rounds its result.\<close>

definition binary64_externals :: "(unit, unit) Externals" where
  "binary64_externals =
     plain_externals
       \<lparr>double_add := (\<lambda>a b. binary64_round (a + b)),
        double_sub := (\<lambda>a b. binary64_round (a - b)),
        double_mul := (\<lambda>a b. binary64_round (a * b)),
        double_div := (\<lambda>a b. binary64_round (a / b))\<rparr>"

text \<open>Options with small iteration bounds, two LO steps and two least-squares passes.\<close>

definition small_options :: LORansacOptions where
  "small_options =
     \<lparr>min_num_iterations_opt = 1, max_num_iterations_opt = 3, success_probability_opt = 9999 / 10000,
      squared_inlier_threshold_opt = 1, random_seed_opt = 0,
      num_lo_steps_opt = 2, threshold_multiplier_opt = 2, num_lsq_iterations_opt = 2,
      min_sample_multiplicator_opt = 7, non_min_sample_multiplier_opt = 3\<rparr>"

text \<open>
  The options of the constructors (lines 49-51 and 63-66 of the source).
  \<open>threshold_multiplier_\<close> is \<open>std::sqrt(2.0)\<close>, the double \<open>0x1.6a09e667f3bcdp+0\<close>, and
  \<open>success_probability_\<close> the double nearest \<open>0.9999\<close>.
\<close>

definition LORansacOptions_default :: LORansacOptions where
  "LORansacOptions_default =
     \<lparr>min_num_iterations_opt = 100, max_num_iterations_opt = 10000,
      success_probability_opt = binary64_round (9999 / 10000),
      squared_inlier_threshold_opt = 1, random_seed_opt = 0,
      num_lo_steps_opt = 10, threshold_multiplier_opt = 6369051672525773 / 2 ^ 52,
      num_lsq_iterations_opt = 4, min_sample_multiplicator_opt = 7,
      non_min_sample_multiplier_opt = 3\<rparr>"

definition some_statistics :: RansacStatistics where
  "some_statistics =
     \<lparr>num_iterations = 17, best_num_inliers = 5, best_model_score = 3, inlier_ratio = 1 / 2,
      inlier_indices = [4, 2]\<rparr>"

text \<open>
  Scenario S3 of the specification: one data point and a minimal sample of two. Models
  are integers and no solver ever produces one.
\<close>

definition insufficient_solver :: "int Solver" where
  "insufficient_solver =
     \<lparr>min_sample_size = 2, non_minimal_sample_size = 3, num_data = 1,
      MinimalSolver = (\<lambda>sample models. (0, models)),
      NonMinimalSolver = (\<lambda>sample m. (False, m)),
      LeastSquares = (\<lambda>inliers m. m),
      EvaluateModelOnPoint = (\<lambda>m i. 0),
      default_model = 0\<rparr>"

text \<open>
  A solver over two data points whose models are integers: the minimal solver
  proposes model 1, the non-minimal solver model 2, a least-squares fit turns model \<open>m\<close>
  into \<open>m + 1\<close>, and every point has squared residual \<open>1 / (m + 1)\<close> under model \<open>m\<close>.
  A model thus counts the fits it went through, and more fits score better.
\<close>

definition refining_solver :: "int Solver" where
  "refining_solver =
     \<lparr>min_sample_size = 1, non_minimal_sample_size = 1, num_data = 2,
      MinimalSolver = (\<lambda>sample models. (1, [1])),
      NonMinimalSolver = (\<lambda>sample m. (True, 2)),
      LeastSquares = (\<lambda>inliers m. m + 1),
      EvaluateModelOnPoint = (\<lambda>m i. 1 / (real_of_int m + 1)),
      default_model = 0\<rparr>"

text \<open>
  Scenario S4 of the specification: the minimal solver always reports 0 models.
\<close>

definition degenerate_solver :: "int Solver" where
  "degenerate_solver =
     \<lparr>min_sample_size = 1, non_minimal_sample_size = 1, num_data = 2,
      MinimalSolver = (\<lambda>sample models. (0, models)),
      NonMinimalSolver = (\<lambda>sample m. (False, m)),
      LeastSquares = (\<lambda>inliers m. m),
      EvaluateModelOnPoint = (\<lambda>m i. 0),
      default_model = 0\<rparr>"

text \<open>
  The refining solver with residuals that are doubles: every point has squared residual
  \<open>2\<^sup>-\<^sup>m\<close> under model \<open>m\<close>.
\<close>

definition halving_solver :: "int Solver" where
  "halving_solver =
     \<lparr>min_sample_size = 1, non_minimal_sample_size = 1, num_data = 2,
      MinimalSolver = (\<lambda>sample models. (1, [1])),
      NonMinimalSolver = (\<lambda>sample m. (True, 2)),
      LeastSquares = (\<lambda>inliers m. m + 1),
      EvaluateModelOnPoint = (\<lambda>m i. 1 / 2 ^ nat m),
      default_model = 0\<rparr>"

text \<open>
  Two points. Point 0 has squared residual 1 under every model; point 1 has \<open>2\<^sup>-\<^sup>(\<^sup>m\<^sup>+\<^sup>1\<^sup>)\<close>
  under model \<open>m\<close>. A least-squares fit adds 1 to the model when point 0 is among the
  inliers it is given, so a model counts the fits that saw point 0 as an inlier.
\<close>

definition tie_solver :: "int Solver" where
  "tie_solver =
     \<lparr>min_sample_size = 1, non_minimal_sample_size = 1, num_data = 2,
      MinimalSolver = (\<lambda>sample models. (1, [0])),
      NonMinimalSolver = (\<lambda>sample m. (True, 0)),
      LeastSquares = (\<lambda>inliers m. if 0 \<in> set inliers then m + 1 else m),
      EvaluateModelOnPoint = (\<lambda>m i. if i = 0 then 1 else 1 / 2 ^ nat (m + 1)),
      default_model = 0\<rparr>"

text \<open>
  Six points that are outliers under every model, and the double nearest \<open>0.01\<close>,
  \<open>0x1.47ae147ae147bp-7\<close>, to be used as threshold.
\<close>

definition double_0_01 :: real where
  "double_0_01 = 5764607523034235 / 2 ^ 59"

definition outlier_solver :: "int Solver" where
  "outlier_solver =
     \<lparr>min_sample_size = 1, non_minimal_sample_size = 1, num_data = 6,
      MinimalSolver = (\<lambda>sample models. (1, [0])),
      NonMinimalSolver = (\<lambda>sample m. (False, m)),
      LeastSquares = (\<lambda>inliers m. m),
      EvaluateModelOnPoint = (\<lambda>m i. 1),
      default_model = 0\<rparr>"

text \<open>
  A minimal solver that reports a model only for the sample \<open>[1]\<close>, which the sampler of
  \<open>plain_externals\<close> never draws.
\<close>

definition picky_solver :: "int Solver" where
  "picky_solver =
     \<lparr>min_sample_size = 1, non_minimal_sample_size = 1, num_data = 2,
      MinimalSolver = (\<lambda>sample models. if sample = [1] then (1, [1]) else (0, models)),
      NonMinimalSolver = (\<lambda>sample m. (False, m)),
      LeastSquares = (\<lambda>inliers m. m),
      EvaluateModelOnPoint = (\<lambda>m i. 0),
      default_model = 0\<rparr>"

section \<open>Entry checks and statistics\<close>

lemma ResetStatistics_eq:
  "ResetStatistics statistics =
     \<lparr>num_iterations = 0, best_num_inliers = 0, best_model_score = DBL_MAX, inlier_ratio = 0,
      inlier_indices = []\<rparr>"
  by (cases statistics) (simp add: ResetStatistics_def)

text \<open>
  Claim C6. When \<open>min_sample_size() > num_data()\<close> or \<open>min_sample_size() \<le> 0\<close>,
  \<open>EstimateModel\<close> returns 0 at once: \<open>*best_model\<close> is as the caller passed it and the
  statistics are the reset ones, with \<open>num_iterations = 0\<close>, \<open>best_num_inliers = 0\<close>,
  \<open>inlier_ratio = 0\<close> and no inlier indices (the score is the reset value \<open>DBL_MAX\<close>).
\<close>

theorem EstimateModel_insufficient_data:
  assumes "min_sample_size solver > num_data solver \<or> min_sample_size solver \<le> 0"
  shows "EstimateModel ext options solver best_model statistics =
           (0, best_model,
            \<lparr>num_iterations = 0, best_num_inliers = 0, best_model_score = DBL_MAX,
             inlier_ratio = 0, inlier_indices = []\<rparr>)"
  using assms by (auto simp add: EstimateModel_def Let_def ResetStatistics_eq)

theorem EstimateModel_insufficient_data_witness:
  "(min_sample_size insufficient_solver > num_data insufficient_solver
      \<or> min_sample_size insufficient_solver \<le> 0)
   \<and> EstimateModel plain_externals small_options insufficient_solver 7 some_statistics =
       (0, 7,
        \<lparr>num_iterations = 0, best_num_inliers = 0, best_model_score = DBL_MAX,
         inlier_ratio = 0, inlier_indices = []\<rparr>)"
proof -
  have h: "min_sample_size insufficient_solver > num_data insufficient_solver
      \<or> min_sample_size insufficient_solver \<le> 0"
    by (simp add: insufficient_solver_def)
  show ?thesis
    using h EstimateModel_insufficient_data [OF h, of plain_externals small_options 7 some_statistics]
    by simp
qed

text \<open>
  Claim C10. \<open>EstimateModel\<close> does not depend on what \<open>*statistics\<close> holds on entry: with
  the same options, solver and \<open>*best_model\<close>, any two initial statistics give the same
  return value, the same best model and the same final statistics, because
  \<open>ResetStatistics\<close> overwrites every field first.
\<close>

theorem EstimateModel_ignores_initial_statistics:
  "EstimateModel ext options solver best_model statistics1 =
     EstimateModel ext options solver best_model statistics2"
  by (simp add: EstimateModel_def ResetStatistics_eq)

section \<open>Inlier extraction\<close>

lemma sorted_wrt_less_upto: "sorted_wrt (<) [i..j]"
proof (induction i j rule: upto.induct)
  case (1 i j)
  show ?case
  proof (cases "i \<le> j")
    case True
    then have "[i..j] = i # [i + 1..j]" by (simp add: upto_rec1)
    with 1 True show ?thesis by auto
  next
    case False
    then show ?thesis by simp
  qed
qed

lemma GetInliers_collect_filter:
  "GetInliers_collect solver model thr i acc =
     (fst acc + int (length (filter (\<lambda>j. EvaluateModelOnPoint solver model j < thr) [i..num_data solver - 1])),
      snd acc @ filter (\<lambda>j. EvaluateModelOnPoint solver model j < thr) [i..num_data solver - 1])"
proof (induction solver model thr i acc rule: GetInliers_collect.induct)
  case (1 solver model thr i n inl)
  show ?case
  proof (cases "i < num_data solver")
    case True
    then have up: "[i..num_data solver - 1] = i # [i + 1..num_data solver - 1]"
      by (simp add: upto_rec1)
    have step: "GetInliers_collect solver model thr i (n, inl) =
        GetInliers_collect solver model thr (i + 1)
          (if EvaluateModelOnPoint solver model i < thr then (n + 1, inl @ [i]) else (n, inl))"
      using True by (subst GetInliers_collect.simps) simp
    show ?thesis
      unfolding step "1.IH" [OF True] up by simp
  next
    case False
    have "GetInliers_collect solver model thr i (n, inl) = (n, inl)"
      using False by (subst GetInliers_collect.simps) simp
    with False show ?thesis by simp
  qed
qed

lemma GetInliers_Some:
  "GetInliers solver model thr (Some v) =
     (int (length (filter (\<lambda>j. EvaluateModelOnPoint solver model j < thr) [0..num_data solver - 1])),
      Some (filter (\<lambda>j. EvaluateModelOnPoint solver model j < thr) [0..num_data solver - 1]))"
  by (simp add: GetInliers_def GetInliers_collect_filter)

lemma GetInliers_count_filter:
  "GetInliers_count solver model thr i n =
     n + int (length (filter (\<lambda>j. EvaluateModelOnPoint solver model j < thr) [i..num_data solver - 1]))"
proof (induction solver model thr i n rule: GetInliers_count.induct)
  case (1 solver model thr i n)
  show ?case
  proof (cases "i < num_data solver")
    case True
    then have up: "[i..num_data solver - 1] = i # [i + 1..num_data solver - 1]"
      by (simp add: upto_rec1)
    have step: "GetInliers_count solver model thr i n = GetInliers_count solver model thr (i + 1)
          (if EvaluateModelOnPoint solver model i < thr then n + 1 else n)"
      using True by (subst GetInliers_count.simps) simp
    show ?thesis
      unfolding step "1.IH" [OF True] up by simp
  next
    case False
    have "GetInliers_count solver model thr i n = n"
      using False by (subst GetInliers_count.simps) simp
    with False show ?thesis by simp
  qed
qed

lemma GetInliers_None:
  "GetInliers solver model thr None =
     (int (length (filter (\<lambda>j. EvaluateModelOnPoint solver model j < thr) [0..num_data solver - 1])),
      None)"
  by (simp add: GetInliers_def GetInliers_count_filter)

text \<open>
  Claim C7. For every model and threshold there is one list \<open>inl\<close> such that
  \<open>GetInliers\<close> with a vector returns \<open>length inl\<close> and leaves \<open>inl\<close> in the vector (whatever
  the vector held before), \<open>GetInliers\<close> with the null pointer returns the same count, the
  members of \<open>inl\<close> are exactly the indices \<open>i\<close> of \<open>[0, num_data())\<close> with
  \<open>EvaluateModelOnPoint(model, i) < threshold\<close> (strictly), and \<open>inl\<close> is strictly
  ascending, hence without duplicates.
\<close>

theorem GetInliers_collects_inliers:
  "\<exists>inl. GetInliers solver model thr (Some v) = (int (length inl), Some inl)
     \<and> GetInliers solver model thr None = (int (length inl), None)
     \<and> set inl = {i. 0 \<le> i \<and> i < num_data solver \<and> EvaluateModelOnPoint solver model i < thr}
     \<and> sorted_wrt (<) inl \<and> distinct inl"
proof -
  let ?inl = "filter (\<lambda>j. EvaluateModelOnPoint solver model j < thr) [0..num_data solver - 1]"
  have s: "sorted_wrt (<) ?inl"
    by (rule sorted_wrt_filter) (rule sorted_wrt_less_upto)
  have d: "distinct ?inl" by simp
  have "set [0..num_data solver - 1] = {i. 0 \<le> i \<and> i < num_data solver}"
    by auto
  then have m: "set ?inl = {i. 0 \<le> i \<and> i < num_data solver \<and> EvaluateModelOnPoint solver model i < thr}"
    by (simp only: set_filter) blast
  show ?thesis
    by (intro exI [of _ ?inl] conjI GetInliers_Some GetInliers_None s d m)
qed

section \<open>Properties of binary64 rounding\<close>

text \<open>
  The rounding is odd, maps 0 to 0 and is monotone: within a binade it is the monotone
  rounding of the scaled value, and across binades the powers of two in between are
  fixed points that separate the results.
\<close>

lemma pow2_powr: "pow2 e = 2 powr real_of_int e"
proof (cases "0 \<le> e")
  case True
  then have "real_of_int e = real (nat e)" by simp
  then show ?thesis
    using True by (simp add: pow2_def powr_realpow del: of_nat_nat)
next
  case False
  then have "real_of_int e = - real (nat (- e))" by simp
  then show ?thesis
    using False by (simp add: pow2_def powr_minus powr_realpow inverse_eq_divide del: of_nat_nat)
qed

lemma pow2_pos: "0 < pow2 e"
  by (simp add: pow2_powr)

lemma pow2_add: "pow2 (a + b) = pow2 a * pow2 b"
  by (simp add: pow2_powr powr_add)

lemma pow2_mono: "a \<le> b \<Longrightarrow> pow2 a \<le> pow2 b"
  by (simp add: pow2_powr)

lemma pow2_less: "pow2 a < pow2 b \<longleftrightarrow> a < b"
  by (simp add: pow2_powr)

lemma pow2_nat: "0 \<le> e \<Longrightarrow> pow2 e = of_int (2 ^ nat e)"
  by (simp add: pow2_def)

lemma round_to_even_ge: "of_int k \<le> y \<Longrightarrow> k \<le> round_to_even y"
proof -
  assume "of_int k \<le> y"
  then have "k \<le> \<lfloor>y\<rfloor>" by (simp add: le_floor_iff)
  then show ?thesis
    by (simp add: round_to_even_def Let_def)
qed

lemma round_to_even_le: "y \<le> of_int k \<Longrightarrow> round_to_even y \<le> k"
proof (cases "y = of_int k")
  case True
  then show ?thesis by (simp add: round_to_even_def Let_def)
next
  case False
  assume "y \<le> of_int k"
  with False have "y < of_int k" by simp
  then have "\<lfloor>y\<rfloor> < k" by (simp add: floor_less_iff)
  then show ?thesis
    by (simp add: round_to_even_def Let_def)
qed

lemma round_to_even_mono: "y \<le> z \<Longrightarrow> round_to_even y \<le> round_to_even z"
proof (cases "\<lfloor>y\<rfloor> = \<lfloor>z\<rfloor>")
  case True
  assume "y \<le> z"
  then have "y - of_int \<lfloor>z\<rfloor> \<le> z - of_int \<lfloor>z\<rfloor>" by simp
  then show ?thesis
    using True by (auto simp add: round_to_even_def Let_def)
next
  case False
  assume yz: "y \<le> z"
  then have "\<lfloor>y\<rfloor> \<le> \<lfloor>z\<rfloor>" by (rule floor_mono)
  with False have "\<lfloor>y\<rfloor> + 1 \<le> \<lfloor>z\<rfloor>" by simp
  then have "of_int (\<lfloor>y\<rfloor> + 1) \<le> z" by (simp add: le_floor_iff)
  then have "\<lfloor>y\<rfloor> + 1 \<le> round_to_even z" by (rule round_to_even_ge)
  moreover have "round_to_even y \<le> \<lfloor>y\<rfloor> + 1"
    by (simp add: round_to_even_def Let_def)
  ultimately show ?thesis by simp
qed

lemma round_to_even_minus: "round_to_even (- y) = - round_to_even y"
proof (cases "y = of_int \<lfloor>y\<rfloor>")
  case True
  then obtain k where "y = of_int k" ..
  then show ?thesis by (simp add: round_to_even_def Let_def)
next
  case False
  have fl: "\<lfloor>- y\<rfloor> = - \<lfloor>y\<rfloor> - 1"
    using False by (simp add: floor_minus ceiling_altdef)
  have r: "0 < y - of_int \<lfloor>y\<rfloor>"
    using False by (smt (verit) of_int_floor_le)
  show ?thesis
    using r unfolding round_to_even_def Let_def fl by auto
qed

lemma binade_search_correct:
  "pow2 lo \<le> x \<Longrightarrow> lo \<le> hi \<Longrightarrow> hi - lo < 2 ^ n \<Longrightarrow>
     lo \<le> binade_search n lo hi x \<and> binade_search n lo hi x \<le> hi
     \<and> pow2 (binade_search n lo hi x) \<le> x
     \<and> (binade_search n lo hi x < hi \<longrightarrow> x < pow2 (binade_search n lo hi x + 1))"
proof (induction n arbitrary: lo hi)
  case 0
  then show ?case by simp
next
  case (Suc n)
  show ?case
  proof (cases "hi \<le> lo")
    case True
    with Suc.prems show ?thesis by simp
  next
    case False
    let ?mid = "(lo + hi + 1) div 2"
    have m1: "lo < ?mid" and m2: "?mid \<le> hi" using False by linarith+
    show ?thesis
    proof (cases "pow2 ?mid \<le> x")
      case True
      have "hi - ?mid < 2 ^ n" using Suc.prems(3) by simp
      from Suc.IH [OF True m2 this] m1 False True show ?thesis
        by (simp add: Let_def)
    next
      case notle: False
      have a: "lo \<le> ?mid - 1" using m1 by simp
      have b: "?mid - 1 - lo < 2 ^ n" using Suc.prems(3) by simp
      from Suc.IH [OF Suc.prems(1) a b]
      have ih: "lo \<le> binade_search n lo (?mid - 1) x \<and> binade_search n lo (?mid - 1) x \<le> ?mid - 1
          \<and> pow2 (binade_search n lo (?mid - 1) x) \<le> x
          \<and> (binade_search n lo (?mid - 1) x < ?mid - 1
                \<longrightarrow> x < pow2 (binade_search n lo (?mid - 1) x + 1))" .
      let ?r = "binade_search n lo (?mid - 1) x"
      have res: "binade_search (Suc n) lo hi x = ?r"
        using False notle by (simp add: Let_def)
      have up: "x < pow2 (?r + 1)"
      proof (cases "?r < ?mid - 1")
        case True
        with ih show ?thesis by simp
      next
        case False
        with ih have "?r + 1 = ?mid" by linarith
        with notle show ?thesis by simp
      qed
      from ih m2 up show ?thesis
        unfolding res by linarith
    qed
  qed
qed

lemma binary64_exponent_range: "- 1022 \<le> binary64_exponent x \<and> binary64_exponent x \<le> 1023"
proof (cases "x < pow2 (- 1022)")
  case True
  then show ?thesis by (simp add: binary64_exponent_def)
next
  case False
  then have "pow2 (- 1022) \<le> x" by simp
  from binade_search_correct [OF this, of 1023 11] False show ?thesis
    by (simp add: binary64_exponent_def)
qed

lemma binary64_exponent_normal:
  assumes "pow2 (- 1022) \<le> x"
  shows "pow2 (binary64_exponent x) \<le> x"
    and "binary64_exponent x < 1023 \<Longrightarrow> x < pow2 (binary64_exponent x + 1)"
  using binade_search_correct [OF assms, of 1023 11] assms
  by (simp_all add: binary64_exponent_def)

lemma binary64_exponent_subnormal:
  "x < pow2 (- 1022) \<Longrightarrow> binary64_exponent x = - 1022"
  by (simp add: binary64_exponent_def)

lemma binary64_exponent_upper:
  "binary64_exponent x < 1023 \<Longrightarrow> x < pow2 (binary64_exponent x + 1)"
proof (cases "x < pow2 (- 1022)")
  case True
  then have "binary64_exponent x = - 1022" by (rule binary64_exponent_subnormal)
  moreover have "pow2 (- 1022) \<le> pow2 (- 1022 + 1)" by (rule pow2_mono) simp
  ultimately show ?thesis using True by simp
next
  case False
  assume "binary64_exponent x < 1023"
  with False show ?thesis by (intro binary64_exponent_normal(2)) simp_all
qed

lemma binary64_exponent_mono:
  assumes "x \<le> y"
  shows "binary64_exponent x \<le> binary64_exponent y"
proof (rule ccontr)
  assume "\<not> binary64_exponent x \<le> binary64_exponent y"
  then have lt: "binary64_exponent y < binary64_exponent x" by simp
  then have "binary64_exponent y < 1023" using binary64_exponent_range [of x] by linarith
  then have y: "y < pow2 (binary64_exponent y + 1)" by (rule binary64_exponent_upper)
  have "- 1022 < binary64_exponent x" using lt binary64_exponent_range [of y] by linarith
  then have "\<not> x < pow2 (- 1022)" using binary64_exponent_subnormal [of x] by auto
  then have "pow2 (binary64_exponent x) \<le> x" by (intro binary64_exponent_normal(1)) simp
  moreover have "pow2 (binary64_exponent y + 1) \<le> pow2 (binary64_exponent x)"
    using lt by (intro pow2_mono) simp
  ultimately show False using y assms by linarith
qed

lemma binary64_round_zero: "binary64_round 0 = 0"
  by (simp add: binary64_round_def)

lemma binary64_round_minus: "binary64_round (- x) = - binary64_round x"
  by (simp add: binary64_round_def Let_def round_to_even_minus)

lemma binary64_round_nonneg: "0 \<le> x \<Longrightarrow> 0 \<le> binary64_round x"
proof -
  assume x: "0 \<le> x"
  let ?u = "pow2 (binary64_exponent \<bar>x\<bar> - 52)"
  have "of_int 0 \<le> x / ?u" using x pow2_pos [of "binary64_exponent \<bar>x\<bar> - 52"] by simp
  then have "0 \<le> round_to_even (x / ?u)" by (rule round_to_even_ge)
  then show ?thesis
    using pow2_pos [of "binary64_exponent \<bar>x\<bar> - 52"]
    by (simp add: binary64_round_def Let_def)
qed

lemma binary64_round_lower:
  assumes "pow2 (- 1022) \<le> x"
  shows "pow2 (binary64_exponent x) \<le> binary64_round x"
proof -
  let ?e = "binary64_exponent x"
  let ?u = "pow2 (?e - 52)"
  have xpos: "0 < x" using assms pow2_pos [of "- 1022"] by linarith
  have u: "0 < ?u" by (rule pow2_pos)
  have "pow2 52 = of_int (2 ^ 52)" by (simp add: pow2_def)
  moreover have "pow2 ?e = ?u * pow2 52"
    using pow2_add [of "?e - 52" 52] by simp
  ultimately have split: "pow2 ?e = ?u * of_int (2 ^ 52)"
    by (simp only:)
  have "pow2 ?e \<le> x" using assms by (rule binary64_exponent_normal(1))
  then have "of_int (2 ^ 52) \<le> x / ?u"
    using u unfolding split by (simp add: pos_le_divide_eq mult.commute)
  then have "2 ^ 52 \<le> round_to_even (x / ?u)" by (rule round_to_even_ge)
  then have "(of_int (2 ^ 52) :: real) \<le> of_int (round_to_even (x / ?u))"
    by (simp only: of_int_le_iff)
  then have "?u * of_int (2 ^ 52) \<le> ?u * of_int (round_to_even (x / ?u))"
    using u by (simp only: mult_le_cancel_left_pos)
  then show ?thesis
    using xpos unfolding split by (simp add: binary64_round_def Let_def)
qed

lemma binary64_round_upper:
  assumes "0 < x" and "binary64_exponent x < 1023"
  shows "binary64_round x \<le> pow2 (binary64_exponent x + 1)"
proof -
  let ?e = "binary64_exponent x"
  let ?u = "pow2 (?e - 52)"
  have u: "0 < ?u" by (rule pow2_pos)
  have "pow2 53 = of_int (2 ^ 53)" by (simp add: pow2_def)
  moreover have "pow2 (?e + 1) = ?u * pow2 53"
    using pow2_add [of "?e - 52" 53] by (simp add: add.commute)
  ultimately have split: "pow2 (?e + 1) = ?u * of_int (2 ^ 53)"
    by (simp only:)
  have "x < pow2 (?e + 1)" using assms(2) by (rule binary64_exponent_upper)
  then have "x / ?u \<le> of_int (2 ^ 53)"
    using u unfolding split by (simp add: pos_divide_le_eq mult.commute)
  then have "round_to_even (x / ?u) \<le> 2 ^ 53" by (rule round_to_even_le)
  then have "(of_int (round_to_even (x / ?u)) :: real) \<le> of_int (2 ^ 53)"
    by (simp only: of_int_le_iff)
  then have "?u * of_int (round_to_even (x / ?u)) \<le> ?u * of_int (2 ^ 53)"
    using u by (simp only: mult_le_cancel_left_pos)
  then show ?thesis
    using assms(1) unfolding split by (simp add: binary64_round_def Let_def)
qed

lemma binary64_round_mono_pos:
  assumes "0 < x" and "x \<le> y"
  shows "binary64_round x \<le> binary64_round y"
proof -
  have ypos: "0 < y" using assms by linarith
  have le: "binary64_exponent x \<le> binary64_exponent y"
    using assms(2) by (rule binary64_exponent_mono)
  show ?thesis
  proof (cases "binary64_exponent x = binary64_exponent y")
    case True
    let ?u = "pow2 (binary64_exponent y - 52)"
    have u: "0 < ?u" by (rule pow2_pos)
    have "x / ?u \<le> y / ?u" using assms(2) u by (simp add: divide_right_mono)
    then have "round_to_even (x / ?u) \<le> round_to_even (y / ?u)" by (rule round_to_even_mono)
    then have "(of_int (round_to_even (x / ?u)) :: real) \<le> of_int (round_to_even (y / ?u))"
      by (simp only: of_int_le_iff)
    then have "?u * of_int (round_to_even (x / ?u)) \<le> ?u * of_int (round_to_even (y / ?u))"
      using u by (simp only: mult_le_cancel_left_pos)
    then show ?thesis
      using assms(1) ypos True by (simp add: binary64_round_def Let_def)
  next
    case False
    with le have lt: "binary64_exponent x < binary64_exponent y" by simp
    then have "binary64_exponent x < 1023" using binary64_exponent_range [of y] by linarith
    with assms(1) have a: "binary64_round x \<le> pow2 (binary64_exponent x + 1)"
      by (rule binary64_round_upper)
    have b: "pow2 (binary64_exponent x + 1) \<le> pow2 (binary64_exponent y)"
      using lt by (intro pow2_mono) simp
    have "- 1022 < binary64_exponent y" using lt binary64_exponent_range [of x] by linarith
    then have "\<not> y < pow2 (- 1022)" using binary64_exponent_subnormal [of y] by auto
    then have "pow2 (binary64_exponent y) \<le> binary64_round y"
      by (intro binary64_round_lower) simp
    with a b show ?thesis by linarith
  qed
qed

lemma binary64_round_mono: "x \<le> y \<Longrightarrow> binary64_round x \<le> binary64_round y"
proof -
  assume xy: "x \<le> y"
  consider "0 < x" | "x \<le> 0" "0 \<le> y" | "y < 0" by linarith
  then show ?thesis
  proof cases
    case 1
    then show ?thesis using xy by (rule binary64_round_mono_pos)
  next
    case 2
    have "0 \<le> binary64_round (- x)" using 2(1) by (intro binary64_round_nonneg) simp
    then have "binary64_round x \<le> 0" by (simp add: binary64_round_minus)
    moreover have "0 \<le> binary64_round y" using 2(2) by (rule binary64_round_nonneg)
    ultimately show ?thesis by linarith
  next
    case 3
    then have "0 < - y" and "- y \<le> - x" using xy by simp_all
    then have "binary64_round (- y) \<le> binary64_round (- x)" by (rule binary64_round_mono_pos)
    then show ?thesis by (simp add: binary64_round_minus)
  qed
qed

section \<open>Runs on the concrete solvers\<close>

text \<open>
  The refining solver under \<open>small_options\<close>, evaluated function by function. The minimal
  model 1 scores 1. Local optimization fits it once (model 2, score \<open>2/3\<close>); in an LO step
  the non-minimal model 2 is fitted under \<open>\<tau>\<^sup>2\<close> (model 3) and then in two passes (model 4,
  score \<open>2/5\<close>, and model 5, score \<open>1/3\<close>), so the refined model is 5 with score \<open>1/3\<close>.
\<close>

lemma small_options_fields:
  "squared_inlier_threshold_opt small_options = 1" "threshold_multiplier_opt small_options = 2"
  "num_lsq_iterations_opt small_options = 2" "num_lo_steps_opt small_options = 2"
  "min_num_iterations_opt small_options = 1" "max_num_iterations_opt small_options = 3"
  "non_min_sample_multiplier_opt small_options = 3" "random_seed_opt small_options = 0"
  "success_probability_opt small_options = 9999 / 10000"
  by (simp_all add: small_options_def)

lemma refining_solver_fields:
  "min_sample_size refining_solver = 1" "non_minimal_sample_size refining_solver = 1"
  "num_data refining_solver = 2" "default_model refining_solver = 0"
  "NonMinimalSolver refining_solver sample m = (True, 2)"
  "MinimalSolver refining_solver sample models = (1, [1])"
  by (simp_all add: refining_solver_def)

lemma plain_externals_fields:
  "RandomShuffleAndResize plain_externals k rng v = (rng, take (nat k) v)"
  "Sample plain_externals s v = (s, map int [0..<length v])"
  "mt19937_seed plain_externals seed = ()"
  "UniformSampling plain_externals seed n k = ()"
  "double_add plain_externals a b = a + b" "double_sub plain_externals a b = a - b"
  "double_mul plain_externals a b = a * b" "double_div plain_externals a b = a / b"
  by (simp_all add: plain_externals_def)

lemma upto_0_1: "[0..1::int] = [0, 1]"
  by (simp add: upto.simps)

lemma one_lt_DBL_MAX: "1 < DBL_MAX"
  by (simp add: DBL_MAX_def)

lemma refining_ScoreModel:
  "0 \<le> m \<Longrightarrow> ScoreModel plain_externals refining_solver m 1 = 2 / (real_of_int m + 1)"
proof -
  assume "0 \<le> m"
  then have "min (1 / (real_of_int m + 1)) 1 = 1 / (real_of_int m + 1)"
    by (simp add: min_def)
  then show ?thesis
    by (simp add: ScoreModel_def ScoreModel_loop.simps refining_solver_def ComputeScore_def
        plain_externals_fields)
qed

lemma refining_GetInliers:
  "GetInliers refining_solver m thr (Some v) =
     (if 1 / (real_of_int m + 1) < thr then (2, Some [0, 1]) else (0, Some []))"
  by (simp add: GetInliers_Some refining_solver_def upto_0_1)

lemma refining_LeastSquaresFit:
  "LeastSquaresFit plain_externals options thresh refining_solver rng m = (rng, m + 1)"
  by (simp add: LeastSquaresFit_def refining_GetInliers plain_externals_def Let_def)
    (simp add: refining_solver_def)

lemma refining_lsq_loop:
  "LocalOptimization_lsq_loop plain_externals small_options refining_solver 1 0
       (2, (), 3, (2 / 3, 2)) = (0, (), 5, (1 / 3, 5))"
  by (simp add: LocalOptimization_lsq_loop.simps refining_LeastSquaresFit refining_ScoreModel
      UpdateBestModel_def small_options_def plain_externals_fields Let_def)

lemma refining_lsq_loop2:
  "LocalOptimization_lsq_loop plain_externals small_options refining_solver 1 0
       (2, (), 3, (1 / 3, 5)) = (0, (), 5, (1 / 3, 5))"
  by (simp add: LocalOptimization_lsq_loop.simps refining_LeastSquaresFit refining_ScoreModel
      UpdateBestModel_def small_options_def plain_externals_fields Let_def)

lemma refining_step_first:
  "LocalOptimization_step plain_externals small_options refining_solver [0, 1] 1 ((), (2 / 3, 2))
     = ((), (1 / 3, 5))"
  by (simp add: LocalOptimization_step_def small_options_fields refining_solver_fields
      plain_externals_fields refining_ScoreModel refining_LeastSquaresFit UpdateBestModel_def
      refining_lsq_loop Let_def)

lemma refining_step_second:
  "LocalOptimization_step plain_externals small_options refining_solver [0, 1] 1 ((), (1 / 3, 5))
     = ((), (1 / 3, 5))"
  by (simp add: LocalOptimization_step_def small_options_fields refining_solver_fields
      plain_externals_fields refining_ScoreModel refining_LeastSquaresFit UpdateBestModel_def
      refining_lsq_loop2 Let_def)

lemma refining_LO_loop:
  "LocalOptimization_loop plain_externals small_options refining_solver [0, 1] 1 0 ((), (2 / 3, 2))
     = ((), (1 / 3, 5))"
  by (simp add: LocalOptimization_loop.simps small_options_fields refining_step_first
      refining_step_second)

lemma refining_LocalOptimization:
  "LocalOptimization plain_externals small_options refining_solver 1 1 = (5, 1 / 3)"
  by (simp add: LocalOptimization_def small_options_fields refining_solver_fields
      plain_externals_fields refining_ScoreModel refining_LeastSquaresFit UpdateBestModel_def
      refining_GetInliers refining_LO_loop Let_def)

lemma refining_GetBestEstimatedModelId:
  "GetBestEstimatedModelId plain_externals refining_solver [1] 1 = (1, 0)"
  by (simp add: GetBestEstimatedModelId_def GetBestEstimatedModelId_loop.simps
      refining_ScoreModel one_lt_DBL_MAX Let_def)

lemma NumRequiredIterations_all_inliers:
  "NumRequiredIterations undef 1 p s lo hi = lo"
  by (simp add: NumRequiredIterations_def)

lemma refining_new_best:
  "EstimateModel_new_best plain_externals small_options refining_solver 1 0
       \<lparr>st_stats = \<lparr>num_iterations = 0, best_num_inliers = 0, best_model_score = DBL_MAX,
                    inlier_ratio = 0, inlier_indices = []\<rparr>,
        st_best_model = bm, st_sampler = (), st_max_num_iterations = 3,
        st_best_minimal_model = 0, st_best_min_model_score = DBL_MAX,
        st_minimal_sample = [0], st_estimated_models = [1]\<rparr>
     = \<lparr>st_stats = \<lparr>num_iterations = 0, best_num_inliers = 2, best_model_score = 1 / 3,
                    inlier_ratio = 1, inlier_indices = [0, 1]\<rparr>,
        st_best_model = 1, st_sampler = (), st_max_num_iterations = 1,
        st_best_minimal_model = 1, st_best_min_model_score = 1,
        st_minimal_sample = [0], st_estimated_models = [1]\<rparr>"
proof -
  have "(1 / 3 :: real) < DBL_MAX"
    by (simp add: DBL_MAX_def)
  then show ?thesis
    by (simp add: EstimateModel_new_best_def refining_LocalOptimization UpdateBestModel_def
        refining_GetInliers small_options_fields refining_solver_fields plain_externals_fields
        NumRequiredIterations_all_inliers Let_def)
qed

lemma refining_iteration:
  "EstimateModel_iteration plain_externals small_options refining_solver
       \<lparr>st_stats = \<lparr>num_iterations = 0, best_num_inliers = 0, best_model_score = DBL_MAX,
                    inlier_ratio = 0, inlier_indices = []\<rparr>,
        st_best_model = bm, st_sampler = (), st_max_num_iterations = 3,
        st_best_minimal_model = 0, st_best_min_model_score = DBL_MAX,
        st_minimal_sample = [0], st_estimated_models = []\<rparr>
     = \<lparr>st_stats = \<lparr>num_iterations = 0, best_num_inliers = 2, best_model_score = 1 / 3,
                    inlier_ratio = 1, inlier_indices = [0, 1]\<rparr>,
        st_best_model = 1, st_sampler = (), st_max_num_iterations = 1,
        st_best_minimal_model = 1, st_best_min_model_score = 1,
        st_minimal_sample = [0], st_estimated_models = [1]\<rparr>"
  by (simp add: EstimateModel_iteration_def plain_externals_fields refining_solver_fields
      small_options_fields refining_GetBestEstimatedModelId one_lt_DBL_MAX refining_new_best
      Let_def)

lemma refining_run:
  "EstimateModel plain_externals small_options refining_solver bm statistics =
     (2, 1, \<lparr>num_iterations = 1, best_num_inliers = 2, best_model_score = 1 / 3,
              inlier_ratio = 1, inlier_indices = [0, 1]\<rparr>)"
  by (simp add: EstimateModel_def ResetStatistics_eq refining_solver_fields small_options_fields
      plain_externals_fields EstimateModel_loop.simps refining_iteration
      increment_num_iterations_def Let_def)

lemma degenerate_run:
  "EstimateModel plain_externals small_options degenerate_solver 7 some_statistics =
     (0, 7, \<lparr>num_iterations = 3, best_num_inliers = 0, best_model_score = DBL_MAX,
              inlier_ratio = 0, inlier_indices = []\<rparr>)"
proof -
  have it: "EstimateModel_iteration plain_externals small_options degenerate_solver
       \<lparr>st_stats = s, st_best_model = bm, st_sampler = (), st_max_num_iterations = 3,
        st_best_minimal_model = 0, st_best_min_model_score = DBL_MAX,
        st_minimal_sample = [0], st_estimated_models = []\<rparr>
     = \<lparr>st_stats = s, st_best_model = bm, st_sampler = (), st_max_num_iterations = 3,
        st_best_minimal_model = 0, st_best_min_model_score = DBL_MAX,
        st_minimal_sample = [0], st_estimated_models = []\<rparr>" for s bm
    by (simp add: EstimateModel_iteration_def plain_externals_fields degenerate_solver_def Let_def)
  have f: "min_sample_size degenerate_solver = 1" "num_data degenerate_solver = 2"
    "default_model degenerate_solver = 0"
    by (simp_all add: degenerate_solver_def)
  show ?thesis
    by (simp add: EstimateModel_def ResetStatistics_eq f small_options_fields
        plain_externals_fields EstimateModel_loop.simps it increment_num_iterations_def Let_def)
qed

lemma binary64_externals_fields:
  "double_add binary64_externals a b = binary64_round (a + b)"
  "double_sub binary64_externals a b = binary64_round (a - b)"
  "double_mul binary64_externals a b = binary64_round (a * b)"
  "double_div binary64_externals a b = binary64_round (a / b)"
  "RandomShuffleAndResize binary64_externals k rng v = (rng, take (nat k) v)"
  "Sample binary64_externals s v = (s, map int [0..<length v])"
  "mt19937_seed binary64_externals seed = ()"
  "UniformSampling binary64_externals seed n k = ()"
  by (simp_all add: binary64_externals_def plain_externals_def)

lemma binary64_monotone_addition: "monotone_addition binary64_externals"
  by (simp add: monotone_addition_def binary64_externals_fields binary64_round_zero
      binary64_round_mono add_mono)

lemma plain_monotone_addition: "monotone_addition plain_externals"
  by (simp add: monotone_addition_def plain_externals_fields add_mono)

lemmas binary64_eval =
  binary64_round_def binary64_exponent_def pow2_def round_to_even_def Let_def eval_nat_numeral

section \<open>MSAC score\<close>

lemma monotone_addition_nonneg:
  "monotone_addition ext \<Longrightarrow> 0 \<le> a \<Longrightarrow> 0 \<le> c \<Longrightarrow> 0 \<le> double_add ext a c"
  unfolding monotone_addition_def by metis

lemma monotone_addition_le:
  "monotone_addition ext \<Longrightarrow> a \<le> b \<Longrightarrow> c \<le> d \<Longrightarrow> double_add ext a c \<le> double_add ext b d"
  unfolding monotone_addition_def by blast

lemma ScoreModel_loop_bounds:
  assumes "monotone_addition ext"
    and "\<forall>i. 0 \<le> i \<and> i < num_data solver \<longrightarrow> 0 \<le> EvaluateModelOnPoint solver model i"
    and "0 \<le> thr"
  shows "0 \<le> i \<Longrightarrow> i \<le> num_data solver \<Longrightarrow>
     0 \<le> score \<Longrightarrow> score \<le> threshold_sum ext thr (nat i) \<Longrightarrow>
     0 \<le> ScoreModel_loop ext solver model thr i score
     \<and> ScoreModel_loop ext solver model thr i score
         \<le> threshold_sum ext thr (nat (num_data solver))"
  using assms
proof (induction ext solver model thr i score rule: ScoreModel_loop.induct)
  case (1 ext solver model thr i score)
  show ?case
  proof (cases "i < num_data solver")
    case True
    let ?c = "ComputeScore (EvaluateModelOnPoint solver model i) thr"
    have step: "ScoreModel_loop ext solver model thr i score =
        ScoreModel_loop ext solver model thr (i + 1) (double_add ext score ?c)"
      using True by (subst ScoreModel_loop.simps) simp
    have c0: "0 \<le> ?c" and c1: "?c \<le> thr"
      using True "1.prems" by (simp_all add: ComputeScore_def)
    have lo: "0 \<le> double_add ext score ?c"
      using "1.prems"(5) "1.prems"(3) c0 by (rule monotone_addition_nonneg)
    have suc: "nat (i + 1) = Suc (nat i)"
      using "1.prems"(1) by simp
    have hi: "double_add ext score ?c \<le> threshold_sum ext thr (nat (i + 1))"
      unfolding suc threshold_sum.simps
      using "1.prems"(5) "1.prems"(4) c1 by (rule monotone_addition_le)
    show ?thesis
      unfolding step
      using True "1.prems" lo hi by (intro "1.IH" [OF True]) simp_all
  next
    case False
    have stop: "ScoreModel_loop ext solver model thr i score = score"
      using False by (subst ScoreModel_loop.simps) simp
    from False "1.prems"(2) have "i = num_data solver" by simp
    with "1.prems"(3,4) show ?thesis
      unfolding stop by simp
  qed
qed

lemma threshold_sum_exact:
  "(\<forall>a b. double_add ext a b = a + b) \<Longrightarrow> threshold_sum ext thr n = real n * thr"
  by (induction n) (simp_all add: algebra_simps)

text \<open>
  Claim C9, as the code has it. Let the addition of doubles be monotone with
  \<open>0 + 0 = 0\<close>, as binary64 addition is. If every squared residual
  \<open>EvaluateModelOnPoint(model, i)\<close>, \<open>i\<close> in \<open>[0, N)\<close>, is non-negative and the threshold
  \<open>\<tau>\<^sup>2\<close> is non-negative, then the score of \<open>ScoreModel\<close> lies between 0 and the sum of \<open>N\<close>
  contributions \<open>\<tau>\<^sup>2\<close> accumulated as \<open>ScoreModel\<close> accumulates them (\<open>N = num_data() \<ge> 0\<close>),
  since each contribution \<open>min(squared_error, \<tau>\<^sup>2)\<close> is at least 0 and at most \<open>\<tau>\<^sup>2\<close>. When
  the addition does not round, that sum is \<open>N \<cdot> \<tau>\<^sup>2\<close>.
\<close>

theorem ScoreModel_range:
  assumes "monotone_addition ext"
    and "\<forall>i. 0 \<le> i \<and> i < num_data solver \<longrightarrow> 0 \<le> EvaluateModelOnPoint solver model i"
    and "0 \<le> thr" and "0 \<le> num_data solver"
  shows "0 \<le> ScoreModel ext solver model thr
     \<and> ScoreModel ext solver model thr \<le> threshold_sum ext thr (nat (num_data solver))
     \<and> ((\<forall>a b. double_add ext a b = a + b) \<longrightarrow>
          ScoreModel ext solver model thr \<le> real_of_int (num_data solver) * thr)"
proof -
  have b: "0 \<le> ScoreModel ext solver model thr
     \<and> ScoreModel ext solver model thr \<le> threshold_sum ext thr (nat (num_data solver))"
    using ScoreModel_loop_bounds [OF assms(1,2,3), of 0 0] assms(4)
    by (simp add: ScoreModel_def)
  have "threshold_sum ext thr (nat (num_data solver)) = real_of_int (num_data solver) * thr"
    if "\<forall>a b. double_add ext a b = a + b"
    using threshold_sum_exact [OF that, of thr "nat (num_data solver)"] assms(4) by simp
  with b show ?thesis by auto
qed

lemma double_0_01_sum:
  "threshold_sum binary64_externals double_0_01 6 = 8646911284551353 / 2 ^ 57"
  apply (simp add: eval_nat_numeral binary64_externals_fields double_0_01_def)
  apply (simp add: binary64_eval)
  done

lemma outlier_score:
  "ScoreModel binary64_externals outlier_solver 0 double_0_01 = 8646911284551353 / 2 ^ 57"
  apply (simp add: ScoreModel_def ScoreModel_loop.simps outlier_solver_def ComputeScore_def
      binary64_externals_fields double_0_01_def)
  apply (simp add: binary64_eval)
  done

theorem ScoreModel_range_witness:
  "0 \<le> ScoreModel binary64_externals outlier_solver 0 double_0_01
   \<and> ScoreModel binary64_externals outlier_solver 0 double_0_01
       \<le> threshold_sum binary64_externals double_0_01 (nat (num_data outlier_solver))
   \<and> threshold_sum binary64_externals double_0_01 (nat (num_data outlier_solver))
       = 8646911284551353 / 2 ^ 57
   \<and> ScoreModel plain_externals outlier_solver 0 double_0_01
       \<le> real_of_int (num_data outlier_solver) * double_0_01"
proof -
  have h2: "\<forall>i. 0 \<le> i \<and> i < num_data outlier_solver
      \<longrightarrow> 0 \<le> EvaluateModelOnPoint outlier_solver 0 i"
    by (simp add: outlier_solver_def)
  have h3: "0 \<le> double_0_01" by (simp add: double_0_01_def)
  have h4: "0 \<le> num_data outlier_solver" by (simp add: outlier_solver_def)
  have n: "nat (num_data outlier_solver) = 6" by (simp add: outlier_solver_def)
  have exact: "\<forall>a b. double_add plain_externals a b = a + b"
    by (simp add: plain_externals_fields)
  show ?thesis
    using ScoreModel_range [OF binary64_monotone_addition h2 h3 h4]
      ScoreModel_range [OF plain_monotone_addition h2 h3 h4] exact
    by (simp add: n double_0_01_sum)
qed

text \<open>
  With binary64 addition the score can exceed \<open>N \<cdot> \<tau>\<^sup>2\<close>: six outliers under the threshold
  \<open>0.01\<close> score \<open>0.060000000000000005\<close>, above both the exact product and the double
  \<open>6 * 0.01\<close>.
\<close>

theorem ScoreModel_range_counterexample:
  "real_of_int (num_data outlier_solver) * double_0_01
     < ScoreModel binary64_externals outlier_solver 0 double_0_01
   \<and> double_mul binary64_externals (real_of_int (num_data outlier_solver)) double_0_01
     < ScoreModel binary64_externals outlier_solver 0 double_0_01"
proof -
  have n: "num_data outlier_solver = 6" by (simp add: outlier_solver_def)
  have p: "double_mul binary64_externals 6 double_0_01 = 8646911284551352 / 2 ^ 57"
    by (simp add: binary64_externals_fields double_0_01_def) (simp add: binary64_eval)
  show ?thesis
    unfolding n outlier_score by (simp add: p) (simp add: double_0_01_def)
qed

section \<open>Local optimization never returns a worse score\<close>

lemma UpdateBestModel_le: "fst (UpdateBestModel score_curr m_curr best) \<le> fst best"
  by (simp add: UpdateBestModel_def split: prod.splits)

lemma lsq_loop_le:
  "fst (snd (snd (snd (LocalOptimization_lsq_loop ext options solver upd i st))))
     \<le> fst (snd (snd (snd st)))"
proof (induction ext options solver upd i st rule: LocalOptimization_lsq_loop.induct)
  case (1 ext options solver upd i thresh rng m refined)
  show ?case
  proof (cases "i < num_lsq_iterations_opt options")
    case True
    obtain rng' m' where fit: "LeastSquaresFit ext options thresh solver rng m = (rng', m')"
      by (cases "LeastSquaresFit ext options thresh solver rng m")
    let ?score = "ScoreModel ext solver m' (squared_inlier_threshold_opt options)"
    let ?refined' = "UpdateBestModel ?score m' refined"
    have step: "LocalOptimization_lsq_loop ext options solver upd i (thresh, rng, m, refined) =
        LocalOptimization_lsq_loop ext options solver upd (i + 1) (double_sub ext thresh upd, rng', m', ?refined')"
      using True fit by (subst LocalOptimization_lsq_loop.simps) (simp add: Let_def)
    have "fst (snd (snd (snd (LocalOptimization_lsq_loop ext options solver upd (i + 1)
          (double_sub ext thresh upd, rng', m', ?refined'))))) \<le> fst ?refined'"
      using "1.IH" [OF True fit [symmetric] refl refl refl] by simp
    also have "\<dots> \<le> fst refined" by (rule UpdateBestModel_le)
    finally show ?thesis unfolding step by simp
  next
    case False
    have "LocalOptimization_lsq_loop ext options solver upd i (thresh, rng, m, refined) =
        (thresh, rng, m, refined)"
      using False by (subst LocalOptimization_lsq_loop.simps) simp
    then show ?thesis by simp
  qed
qed

lemma LocalOptimization_step_le:
  "fst (snd (LocalOptimization_step ext options solver base k st)) \<le> fst (snd st)"
proof -
  obtain rng refined where st: "st = (rng, refined)" by (cases st)
  have a: "fst (snd (snd (snd (LocalOptimization_lsq_loop ext options solver upd 0
              (th, r2, m2, UpdateBestModel sc mm refined))))) \<le> fst refined" for upd th r2 m2 sc mm
    using lsq_loop_le [of ext options solver upd 0 "(th, r2, m2, UpdateBestModel sc mm refined)"]
      UpdateBestModel_le [of sc mm refined] by simp
  show ?thesis
    unfolding st LocalOptimization_step_def
    by (auto simp add: Let_def split: prod.splits) (metis a fst_conv snd_conv)
qed

lemma LocalOptimization_loop_le:
  "fst (snd (LocalOptimization_loop ext options solver base k r st)) \<le> fst (snd st)"
proof (induction ext options solver base k r st rule: LocalOptimization_loop.induct)
  case (1 ext options solver base k r st)
  show ?case
  proof (cases "r < num_lo_steps_opt options")
    case True
    have step: "LocalOptimization_loop ext options solver base k r st =
        LocalOptimization_loop ext options solver base k (r + 1)
          (LocalOptimization_step ext options solver base k st)"
      using True by (subst LocalOptimization_loop.simps) simp
    show ?thesis
      unfolding step using "1.IH" [OF True] LocalOptimization_step_le [of ext options solver base k st]
      by linarith
  next
    case False
    have "LocalOptimization_loop ext options solver base k r st = st"
      using False by (subst LocalOptimization_loop.simps) simp
    then show ?thesis by simp
  qed
qed

text \<open>
  Claim C2. For every solver, options, input model and input score, the score that
  \<open>LocalOptimization\<close> returns is at most the input score: the refined pair starts as
  the input and changes only through \<open>UpdateBestModel\<close>, which only lowers the score.
\<close>

theorem LocalOptimization_no_regression:
  "snd (LocalOptimization ext options solver best_minimal_model score_best_minimal_model)
     \<le> score_best_minimal_model"
proof -
  have a: "fst (snd (LocalOptimization_loop ext options solver base k 0
        (r1, UpdateBestModel sc mm (score_best_minimal_model, best_minimal_model))))
      \<le> score_best_minimal_model" for base k r1 sc mm
    using LocalOptimization_loop_le [of ext options solver base k 0
        "(r1, UpdateBestModel sc mm (score_best_minimal_model, best_minimal_model))"]
      UpdateBestModel_le [of sc mm "(score_best_minimal_model, best_minimal_model)"]
    by simp
  show ?thesis
    unfolding LocalOptimization_def
    by (auto simp add: Let_def split: prod.splits) (metis a fst_conv snd_conv)
qed

section \<open>The LO step against the specification\<close>

lemma LeastSquaresFit_spec:
  "LeastSquaresFit ext options \<theta> solver rng model = spec_fit ext options solver \<theta> rng model"
  by (simp add: LeastSquaresFit_def spec_fit_def spec_inliers_def GetInliers_Some Let_def)

lemma ScoreModel_loop_fold:
  "ScoreModel_loop ext solver model thr i score =
     fold (\<lambda>i s. double_add ext s (min (EvaluateModelOnPoint solver model i) thr))
       [i..num_data solver - 1] score"
proof (induction ext solver model thr i score rule: ScoreModel_loop.induct)
  case (1 ext solver model thr i score)
  show ?case
  proof (cases "i < num_data solver")
    case True
    then have up: "[i..num_data solver - 1] = i # [i + 1..num_data solver - 1]"
      by (simp add: upto_rec1)
    have step: "ScoreModel_loop ext solver model thr i score =
        ScoreModel_loop ext solver model thr (i + 1)
          (double_add ext score (ComputeScore (EvaluateModelOnPoint solver model i) thr))"
      using True by (subst ScoreModel_loop.simps) simp
    show ?thesis
      unfolding step "1.IH" [OF True] up by (simp add: ComputeScore_def)
  next
    case False
    have "ScoreModel_loop ext solver model thr i score = score"
      using False by (subst ScoreModel_loop.simps) simp
    with False show ?thesis by simp
  qed
qed

lemma ScoreModel_spec: "ScoreModel ext solver model thr = spec_score ext solver model thr"
  by (simp add: ScoreModel_def spec_score_def ScoreModel_loop_fold)

lemma UpdateBestModel_spec: "UpdateBestModel score model best = spec_update score model best"
  by (cases best) (simp add: UpdateBestModel_def spec_update_def)

lemma lsq_loop_is_fold:
  "nat (num_lsq_iterations_opt options) - i = k \<Longrightarrow>
   LocalOptimization_lsq_loop ext options solver
       (double_div ext
          (double_mul ext (double_sub ext (threshold_multiplier_opt options) 1)
             (squared_inlier_threshold_opt options))
          (real_of_int (num_lsq_iterations_opt options - 1)))
       (int i) (rounded_threshold ext options i, rng, m, refined)
     = (rounded_threshold ext options (max i (nat (num_lsq_iterations_opt options))),
        fold (spec_pass ext options solver (rounded_threshold ext options))
          [i..<nat (num_lsq_iterations_opt options)] (rng, m, refined))"
proof (induction k arbitrary: i rng m refined)
  case 0
  then have ge: "\<not> int i < num_lsq_iterations_opt options" by linarith
  then have "max i (nat (num_lsq_iterations_opt options)) = i" by linarith
  moreover have "[i..<nat (num_lsq_iterations_opt options)] = []" using ge by simp
  ultimately show ?case
    using ge by (subst LocalOptimization_lsq_loop.simps) simp
next
  case (Suc k)
  let ?n = "num_lsq_iterations_opt options"
  let ?d = "double_div ext
          (double_mul ext (double_sub ext (threshold_multiplier_opt options) 1)
             (squared_inlier_threshold_opt options))
          (real_of_int (?n - 1))"
  from Suc.prems have lt: "int i < ?n" and lt': "i < nat ?n" by linarith+
  obtain rng' m' where
    fit: "spec_fit ext options solver (rounded_threshold ext options i) rng m = (rng', m')"
    by (cases "spec_fit ext options solver (rounded_threshold ext options i) rng m")
  let ?refined' = "spec_update (spec_score ext solver m' (squared_inlier_threshold_opt options)) m' refined"
  have step: "LocalOptimization_lsq_loop ext options solver ?d (int i)
        (rounded_threshold ext options i, rng, m, refined)
      = LocalOptimization_lsq_loop ext options solver ?d (int (Suc i))
        (rounded_threshold ext options (Suc i), rng', m', ?refined')"
    using lt fit
    by (subst LocalOptimization_lsq_loop.simps)
      (simp add: Let_def LeastSquaresFit_spec ScoreModel_spec UpdateBestModel_spec add.commute)
  have pass: "spec_pass ext options solver (rounded_threshold ext options) i (rng, m, refined)
      = (rng', m', ?refined')"
    by (simp add: spec_pass_def fit Let_def)
  have upt: "[i..<nat ?n] = i # [Suc i..<nat ?n]"
    using lt' by (rule upt_conv_Cons)
  have mx: "max (Suc i) (nat ?n) = max i (nat ?n)"
    using lt' by simp
  have "nat ?n - Suc i = k" using Suc.prems by simp
  from Suc.IH [OF this, of rng' m' ?refined'] show ?case
    unfolding step upt by (simp add: pass mx)
qed

lemma LocalOptimization_step_spec:
  "LocalOptimization_step ext options solver inliers_base k (rng, refined) =
     spec_LO_step_prefit ext options solver inliers_base k (rng, refined)"
proof -
  let ?n = "num_lsq_iterations_opt options"
  have loop: "LocalOptimization_lsq_loop ext options solver
       (double_div ext
          (double_mul ext (double_sub ext (threshold_multiplier_opt options) 1)
             (squared_inlier_threshold_opt options))
          (real_of_int (?n - 1)))
       0 (double_mul ext (threshold_multiplier_opt options) (squared_inlier_threshold_opt options),
          r, m, b)
     = (rounded_threshold ext options (nat ?n),
        fold (spec_pass ext options solver (rounded_threshold ext options)) [0..<nat ?n] (r, m, b))"
    for r m b
    using lsq_loop_is_fold [of options 0 "nat ?n" ext solver r m b] by simp
  show ?thesis
    unfolding LocalOptimization_step_def spec_LO_step_prefit_def Let_def loop
      LeastSquaresFit_spec ScoreModel_spec UpdateBestModel_spec
    by (simp add: case_prod_beta)
qed

lemma rounded_threshold_exact:
  assumes "\<forall>a b. double_sub ext a b = a - b" and "\<forall>a b. double_mul ext a b = a * b"
    and "\<forall>a b. double_div ext a b = a / b"
  shows "rounded_threshold ext options i = spec_threshold options i"
proof (induction i)
  case 0
  then show ?case by (simp add: assms spec_threshold_def)
next
  case (Suc i)
  have "a - real (Suc i) * D = a - real i * D - D" for a D :: real
    by (simp add: algebra_simps)
  then have "spec_threshold options (Suc i) = spec_threshold options i
     - (threshold_multiplier_opt options - 1) * squared_inlier_threshold_opt options
         / real_of_int (num_lsq_iterations_opt options - 1)"
    unfolding spec_threshold_def by (rule meta_spec)
  with Suc show ?case by (simp add: assms)
qed

lemma spec_threshold_last:
  assumes "2 \<le> num_lsq_iterations_opt options"
  shows "spec_threshold options (nat (num_lsq_iterations_opt options) - 1)
     = squared_inlier_threshold_opt options"
proof -
  let ?n = "num_lsq_iterations_opt options"
  have cancel: "e \<noteq> 0 \<Longrightarrow> x * t - e * ((x - 1) * t / e) = t" for e x t :: real
    by (simp add: left_diff_distrib)
  have conv: "real (nat ?n - 1) = real_of_int (?n - 1)"
    using assms by (simp add: of_nat_diff)
  have "real_of_int (?n - 1) \<noteq> 0"
    using assms by simp
  then show ?thesis
    unfolding spec_threshold_def conv by (rule cancel)
qed

text \<open>
  Claim C3, as the code has it. In an LO step in which \<open>NonMinimalSolver\<close> succeeds, the
  candidate is scored under \<open>\<tau>\<^sup>2\<close> and offered to the refined best, then fitted once by
  least squares against its inliers under \<open>\<tau>\<^sup>2\<close> (not scored), and then exactly
  \<open>num_lsq_iterations_\<close> passes follow: \<open>\<theta>\<close> starts at \<open>threshold_multiplier_ \<cdot> \<tau>\<^sup>2\<close>, each pass
  fits least squares against the inliers under the current \<open>\<theta>\<close>, scores under \<open>\<tau>\<^sup>2\<close>,
  updates the refined best and lowers \<open>\<theta>\<close> by
  \<open>(threshold_multiplier_ - 1) \<cdot> \<tau>\<^sup>2 / (num_lsq_iterations_ - 1)\<close>, every operation in the
  arithmetic of doubles. When that arithmetic does not round and
  \<open>num_lsq_iterations_ \<ge> 2\<close>, the last pass fits under \<open>\<theta> = \<tau>\<^sup>2\<close>.
\<close>

theorem LocalOptimization_step_annealing:
  assumes "2 \<le> num_lsq_iterations_opt options"
  shows "LocalOptimization_step ext options solver inliers_base kNonMinSampleSize (rng, refined) =
       spec_LO_step_prefit ext options solver inliers_base kNonMinSampleSize (rng, refined)
     \<and> int (length [0..<nat (num_lsq_iterations_opt options)]) = num_lsq_iterations_opt options
     \<and> ((\<forall>a b. double_sub ext a b = a - b) \<and> (\<forall>a b. double_mul ext a b = a * b)
          \<and> (\<forall>a b. double_div ext a b = a / b) \<longrightarrow>
        rounded_threshold ext options (nat (num_lsq_iterations_opt options) - 1)
          = squared_inlier_threshold_opt options)"
proof -
  have len: "int (length [0..<nat (num_lsq_iterations_opt options)]) = num_lsq_iterations_opt options"
    using assms by simp
  have last: "rounded_threshold ext options (nat (num_lsq_iterations_opt options) - 1)
          = squared_inlier_threshold_opt options"
    if "(\<forall>a b. double_sub ext a b = a - b) \<and> (\<forall>a b. double_mul ext a b = a * b)
          \<and> (\<forall>a b. double_div ext a b = a / b)"
    using that rounded_threshold_exact [of ext options] spec_threshold_last [OF assms] by simp
  show ?thesis
    using LocalOptimization_step_spec [of ext options solver inliers_base kNonMinSampleSize rng refined]
      len last by blast
qed

lemma default_options_fields:
  "squared_inlier_threshold_opt LORansacOptions_default = 1"
  "threshold_multiplier_opt LORansacOptions_default = 6369051672525773 / 2 ^ 52"
  "num_lsq_iterations_opt LORansacOptions_default = 4"
  "min_sample_multiplicator_opt LORansacOptions_default = 7"
  by (simp_all add: LORansacOptions_default_def)

lemma small_options_multiplicator: "min_sample_multiplicator_opt small_options = 7"
  by (simp add: small_options_def)

lemma default_rounded_thresholds:
  "rounded_threshold binary64_externals LORansacOptions_default 0 = 6369051672525773 / 2 ^ 52"
  "rounded_threshold binary64_externals LORansacOptions_default (Suc 0) = 5747234324140681 / 2 ^ 52"
  "rounded_threshold binary64_externals LORansacOptions_default (Suc (Suc 0)) = 5125416975755589 / 2 ^ 52"
  "rounded_threshold binary64_externals LORansacOptions_default (Suc (Suc (Suc 0))) = 4503599627370497 / 2 ^ 52"
  by (simp_all add: default_options_fields binary64_externals_fields) (simp_all add: binary64_eval)

lemma default_spec_thresholds:
  "1 < spec_threshold LORansacOptions_default 0"
  "1 < spec_threshold LORansacOptions_default (Suc 0)"
  "1 < spec_threshold LORansacOptions_default (Suc (Suc 0))"
  "spec_threshold LORansacOptions_default (Suc (Suc (Suc 0))) = 1"
  by (simp_all add: spec_threshold_def default_options_fields)

lemma binary64_small_values:
  "binary64_round 1 = 1" "binary64_round 2 = 2"
  "binary64_round (1 / 2) = 1 / 2" "binary64_round (1 / 4) = 1 / 4"
  "binary64_round (1 / 8) = 1 / 8" "binary64_round (1 / 16) = 1 / 16"
  "binary64_round (1 / 32) = 1 / 32" "binary64_round (1 / 64) = 1 / 64"
  "binary64_round (3 / 2) = 3 / 2" "binary64_round (5 / 4) = 5 / 4"
  "binary64_round (9 / 8) = 9 / 8" "binary64_round (17 / 16) = 17 / 16"
  "binary64_round (33 / 32) = 33 / 32"
  by (simp_all add: binary64_eval)

lemma halving_solver_fields:
  "min_sample_size halving_solver = 1" "num_data halving_solver = 2"
  "default_model halving_solver = 0"
  "NonMinimalSolver halving_solver chosen m = (True, 2)"
  "LeastSquares halving_solver inl m = m + 1"
  "EvaluateModelOnPoint halving_solver m i = 1 / 2 ^ nat m"
  by (simp_all add: halving_solver_def)

lemma halving_score:
  "spec_score binary64_externals halving_solver 2 1 = 1 / 2"
  "spec_score binary64_externals halving_solver 3 1 = 1 / 4"
  "spec_score binary64_externals halving_solver 4 1 = 1 / 8"
  "spec_score binary64_externals halving_solver 5 1 = 1 / 16"
  by (simp_all add: spec_score_def halving_solver_fields upto_0_1 binary64_externals_fields
      binary64_small_values)

lemma halving_fit:
  "spec_fit binary64_externals options halving_solver \<theta> rng m = (rng, m + 1)"
  by (simp add: spec_fit_def binary64_externals_fields halving_solver_fields Let_def)

lemma small_rounded_thresholds:
  "rounded_threshold binary64_externals small_options 0 = 2"
  "rounded_threshold binary64_externals small_options (Suc 0) = 1"
  by (simp_all add: small_options_fields binary64_externals_fields binary64_small_values)

lemma small_spec_thresholds:
  "spec_threshold small_options 0 = 2" "spec_threshold small_options (Suc 0) = 1"
  by (simp_all add: spec_threshold_def small_options_fields)

lemma upt_2: "[0..<2] = [0, Suc 0]"
  by (simp add: upt_rec)

lemma upt_4: "[0..<4] = [0, Suc 0, Suc (Suc 0), Suc (Suc (Suc 0))]"
  by (simp add: upt_rec)

lemma halving_prefit_step:
  "spec_LO_step_prefit binary64_externals small_options halving_solver [0, 1] 1 ((), (1, 1))
     = ((), (1 / 16, 5))"
  by (simp add: spec_LO_step_prefit_def spec_pass_def spec_update_def small_options_fields
      halving_solver_fields binary64_externals_fields halving_score halving_fit
      small_rounded_thresholds upt_2 Let_def)

lemma halving_claimed_step:
  "spec_LO_step binary64_externals small_options halving_solver [0, 1] 1 ((), (1, 1))
     = ((), (1 / 8, 4))"
  by (simp add: spec_LO_step_def spec_pass_def spec_update_def small_options_fields
      halving_solver_fields binary64_externals_fields halving_score halving_fit
      small_spec_thresholds upt_2 Let_def)

lemma tie_solver_fields:
  "min_sample_size tie_solver = 1" "num_data tie_solver = 2"
  "default_model tie_solver = 0"
  "NonMinimalSolver tie_solver chosen m = (True, 0)"
  "LeastSquares tie_solver inl m = (if 0 \<in> set inl then m + 1 else m)"
  "EvaluateModelOnPoint tie_solver m i = (if i = 0 then 1 else 1 / 2 ^ nat (m + 1))"
  by (simp_all add: tie_solver_def)

lemma tie_score:
  "spec_score binary64_externals tie_solver 0 1 = 3 / 2"
  "spec_score binary64_externals tie_solver 1 1 = 5 / 4"
  "spec_score binary64_externals tie_solver 2 1 = 9 / 8"
  "spec_score binary64_externals tie_solver 3 1 = 17 / 16"
  "spec_score binary64_externals tie_solver 4 1 = 33 / 32"
  by (simp_all add: spec_score_def tie_solver_fields upto_0_1 binary64_externals_fields
      binary64_small_values)

lemma tie_fit_above:
  "1 < \<theta> \<Longrightarrow> 0 \<le> m \<Longrightarrow>
     spec_fit binary64_externals LORansacOptions_default tie_solver \<theta> rng m = (rng, m + 1)"
proof -
  assume th: "1 < \<theta>" and m: "0 \<le> m"
  have "(1 :: real) / 2 ^ nat (m + 1) \<le> 1" by (simp add: divide_le_eq)
  with th have "(1 :: real) / 2 ^ nat (m + 1) < \<theta>" by linarith
  with th show ?thesis
    by (simp add: spec_fit_def spec_inliers_def binary64_externals_fields tie_solver_fields
        default_options_fields upto_0_1 Let_def)
qed

lemma tie_fit_at:
  "0 \<le> m \<Longrightarrow>
     spec_fit binary64_externals LORansacOptions_default tie_solver 1 rng m = (rng, m)"
proof -
  assume m: "0 \<le> m"
  have "(1 :: real) < 2 ^ nat (m + 1)"
    using m by (simp add: one_less_power)
  then have "(1 :: real) / 2 ^ nat (m + 1) < 1" by simp
  then show ?thesis
    by (simp add: spec_fit_def spec_inliers_def binary64_externals_fields tie_solver_fields
        default_options_fields upto_0_1 Let_def)
qed

lemma default_rounded_above:
  "1 < rounded_threshold binary64_externals LORansacOptions_default 0"
  "1 < rounded_threshold binary64_externals LORansacOptions_default (Suc 0)"
  "1 < rounded_threshold binary64_externals LORansacOptions_default (Suc (Suc 0))"
  "1 < rounded_threshold binary64_externals LORansacOptions_default (Suc (Suc (Suc 0)))"
  by (simp_all only: default_rounded_thresholds) simp_all

lemma tie_prefit_step:
  "spec_LO_step_prefit binary64_externals LORansacOptions_default tie_solver [0, 1] 4 ((), (2, 7))
     = ((), (33 / 32, 4))"
  by (simp add: spec_LO_step_prefit_def spec_pass_def spec_update_def default_options_fields
      tie_solver_fields binary64_externals_fields tie_score tie_fit_at
      tie_fit_above [OF default_rounded_above(1)] tie_fit_above [OF default_rounded_above(2)]
      tie_fit_above [OF default_rounded_above(3)] tie_fit_above [OF default_rounded_above(4)]
      upt_4 Let_def del: rounded_threshold.simps)

lemma tie_claimed_step:
  "spec_LO_step binary64_externals LORansacOptions_default tie_solver [0, 1] 4 ((), (2, 7))
     = ((), (17 / 16, 3))"
  by (simp add: spec_LO_step_def spec_pass_def spec_update_def default_options_fields
      tie_solver_fields binary64_externals_fields tie_score
      default_spec_thresholds(4) tie_fit_at
      tie_fit_above [OF default_spec_thresholds(1)] tie_fit_above [OF default_spec_thresholds(2)]
      tie_fit_above [OF default_spec_thresholds(3)]
      upt_4 Let_def)

theorem LocalOptimization_step_annealing_witness:
  "LocalOptimization_step binary64_externals small_options halving_solver [0, 1] 1 ((), (1, 1))
     = ((), (1 / 16, 5))
   \<and> rounded_threshold plain_externals small_options
       (nat (num_lsq_iterations_opt small_options) - 1)
     = squared_inlier_threshold_opt small_options"
proof -
  have h: "2 \<le> num_lsq_iterations_opt small_options" by (simp add: small_options_def)
  have exact: "(\<forall>a b. double_sub plain_externals a b = a - b)
      \<and> (\<forall>a b. double_mul plain_externals a b = a * b)
      \<and> (\<forall>a b. double_div plain_externals a b = a / b)"
    by (simp add: plain_externals_fields)
  show ?thesis
    using LocalOptimization_step_annealing [OF h, of binary64_externals halving_solver
        "[0, 1]" 1 "()" "(1, 1)"]
      LocalOptimization_step_annealing [OF h, of plain_externals halving_solver
        "[0, 1]" 1 "()" "(1, 1)"]
      exact
    by (simp only: halving_prefit_step) blast
qed

text \<open>
  The step of the source is not the step of the specification. With binary64 arithmetic
  on the halving solver (two passes, multiplier 2) the source returns model 5, the
  candidate after three fits, where the specification has two fits and model 4. With the
  default options and \<open>\<tau>\<^sup>2 = 1\<close> the last pass of the source runs under \<open>1 + 2\<^sup>-\<^sup>5\<^sup>2\<close>, not
  \<open>\<tau>\<^sup>2\<close>: on the tie solver point 0, whose residual is exactly \<open>\<tau>\<^sup>2\<close>, is an inlier of all
  four passes of the source (model 4) and of three passes of the specification (model 3).
\<close>

theorem LocalOptimization_step_annealing_counterexample:
  "LocalOptimization_step binary64_externals small_options halving_solver [0, 1] 1 ((), (1, 1))
     = ((), (1 / 16, 5))
   \<and> spec_LO_step binary64_externals small_options halving_solver [0, 1] 1 ((), (1, 1))
     = ((), (1 / 8, 4))
   \<and> LocalOptimization_step binary64_externals LORansacOptions_default tie_solver [0, 1] 4
       ((), (2, 7))
     = ((), (33 / 32, 4))
   \<and> spec_LO_step binary64_externals LORansacOptions_default tie_solver [0, 1] 4 ((), (2, 7))
     = ((), (17 / 16, 3))
   \<and> rounded_threshold binary64_externals LORansacOptions_default 3 = 1 + 1 / 2 ^ 52
   \<and> squared_inlier_threshold_opt LORansacOptions_default = 1"
proof -
  have three: "(3 :: nat) = Suc (Suc (Suc 0))" by simp
  have "rounded_threshold binary64_externals LORansacOptions_default 3 = 1 + 1 / 2 ^ 52"
    unfolding three default_rounded_thresholds(4) by simp
  then show ?thesis
    by (simp only: LocalOptimization_step_spec halving_prefit_step halving_claimed_step
        tie_prefit_step tie_claimed_step default_options_fields)
qed

section \<open>Bounds on the number of iterations\<close>

lemma EstimateModel_loop_unfold_continue:
  "num_iterations (st_stats st) < st_max_num_iterations st \<Longrightarrow>
     EstimateModel_loop ext options solver st =
       EstimateModel_loop ext options solver
         (increment_num_iterations (EstimateModel_iteration ext options solver st))"
  by (subst EstimateModel_loop.simps) simp

lemma EstimateModel_loop_unfold_exit:
  "\<not> num_iterations (st_stats st) < st_max_num_iterations st \<Longrightarrow>
     EstimateModel_loop ext options solver st = st"
  by (subst EstimateModel_loop.simps) simp

lemma EstimateModel_iteration_budget_bounds:
  assumes "min_num_iterations_opt options \<le> max_num_iterations_opt options"
    and "min_num_iterations_opt options \<le> st_max_num_iterations st"
    and "st_max_num_iterations st \<le> max_num_iterations_opt options"
  shows "min_num_iterations_opt options
           \<le> st_max_num_iterations (EstimateModel_iteration ext options solver st)
       \<and> st_max_num_iterations (EstimateModel_iteration ext options solver st)
           \<le> max_num_iterations_opt options"
proof -
  from EstimateModel_iteration_budget [of ext options solver st]
  show ?thesis
  proof
    assume "st_max_num_iterations (EstimateModel_iteration ext options solver st)
        = st_max_num_iterations st"
    with assms show ?thesis by simp
  next
    assume "\<exists>ratio. st_max_num_iterations (EstimateModel_iteration ext options solver st) =
        NumRequiredIterations (undefined_conversion ext) ratio
          (double_sub ext 1 (success_probability_opt options)) (min_sample_size solver)
          (min_num_iterations_opt options) (max_num_iterations_opt options)"
    then obtain ratio where
      eq: "st_max_num_iterations (EstimateModel_iteration ext options solver st) =
        NumRequiredIterations (undefined_conversion ext) ratio
          (double_sub ext 1 (success_probability_opt options)) (min_sample_size solver)
          (min_num_iterations_opt options) (max_num_iterations_opt options)" ..
    have "NumRequiredIterations (undefined_conversion ext) ratio
          (double_sub ext 1 (success_probability_opt options)) (min_sample_size solver)
          (min_num_iterations_opt options) (max_num_iterations_opt options)
        \<le> max (min_num_iterations_opt options) (max_num_iterations_opt options)"
      by (rule NumRequiredIterations_le_max)
    with assms(1) eq NumRequiredIterations_ge_min [OF assms(1)] show ?thesis
      by (simp add: max_def)
  qed
qed

lemma EstimateModel_loop_bounds:
  assumes "min_num_iterations_opt options \<le> max_num_iterations_opt options"
  shows "min_num_iterations_opt options \<le> st_max_num_iterations st \<Longrightarrow>
     st_max_num_iterations st \<le> max_num_iterations_opt options \<Longrightarrow>
     num_iterations (st_stats st) \<le> max_num_iterations_opt options \<Longrightarrow>
     min_num_iterations_opt options
         \<le> num_iterations (st_stats (EstimateModel_loop ext options solver st))
     \<and> num_iterations (st_stats (EstimateModel_loop ext options solver st))
         \<le> max_num_iterations_opt options"
  using assms
proof (induction ext options solver st rule: EstimateModel_loop.induct)
  case (1 ext options solver st)
  let ?it = "EstimateModel_iteration ext options solver st"
  show ?case
  proof (cases "num_iterations (st_stats st) < st_max_num_iterations st")
    case True
    have b: "min_num_iterations_opt options \<le> st_max_num_iterations ?it
        \<and> st_max_num_iterations ?it \<le> max_num_iterations_opt options"
      using "1.prems" by (intro EstimateModel_iteration_budget_bounds) simp_all
    have "num_iterations (st_stats st) + 1 \<le> st_max_num_iterations st"
      using True by (rule inc_le)
    then have c: "num_iterations (st_stats (increment_num_iterations ?it))
        \<le> max_num_iterations_opt options"
      using "1.prems"(2)
      by (simp add: increment_num_iterations_def EstimateModel_iteration_counter)
    have "min_num_iterations_opt options
         \<le> num_iterations (st_stats (EstimateModel_loop ext options solver (increment_num_iterations ?it)))
      \<and> num_iterations (st_stats (EstimateModel_loop ext options solver (increment_num_iterations ?it)))
         \<le> max_num_iterations_opt options"
      using b c "1.prems"(4) by (intro "1.IH" [OF True]) (simp_all add: increment_num_iterations_def)
    then show ?thesis
      by (simp add: EstimateModel_loop_unfold_continue [OF True])
  next
    case False
    then have "min_num_iterations_opt options \<le> num_iterations (st_stats st)"
      using "1.prems"(1) by simp
    with False "1.prems"(3) show ?thesis
      by (simp add: EstimateModel_loop_unfold_exit)
  qed
qed

text \<open>
  Claim C8. With \<open>0 < min_sample_size() \<le> num_data()\<close> and
  \<open>min_num_iterations_ \<le> max_num_iterations_\<close>, the final \<open>statistics.num_iterations\<close> of
  \<open>EstimateModel\<close> lies between \<open>min_num_iterations_\<close> and \<open>max_num_iterations_\<close>, whatever
  the budget was recomputed to during the run. The budget is never set below
  \<open>min_num_iterations_\<close>: every value of \<open>NumRequiredIterations\<close> is at least
  \<open>min_num_iterations_\<close>, and an iteration that starts with a budget of at least
  \<open>min_num_iterations_\<close> ends with one.
\<close>

theorem EstimateModel_iteration_bounds:
  assumes "0 < min_sample_size solver" and "min_sample_size solver \<le> num_data solver"
    and "min_num_iterations_opt options \<le> max_num_iterations_opt options"
  shows "min_num_iterations_opt options
           \<le> num_iterations (snd (snd (EstimateModel ext options solver best_model statistics)))
     \<and> num_iterations (snd (snd (EstimateModel ext options solver best_model statistics)))
           \<le> max_num_iterations_opt options
     \<and> (\<forall>ratio. min_num_iterations_opt options
           \<le> NumRequiredIterations (undefined_conversion ext) ratio
                (double_sub ext 1 (success_probability_opt options)) (min_sample_size solver)
                (min_num_iterations_opt options) (max_num_iterations_opt options))
     \<and> (\<forall>st. min_num_iterations_opt options \<le> st_max_num_iterations st \<longrightarrow>
           min_num_iterations_opt options
             \<le> st_max_num_iterations (EstimateModel_iteration ext options solver st))"
proof -
  let ?st0 = "\<lparr>st_stats = (ResetStatistics statistics)\<lparr>num_iterations := 0\<rparr>,
        st_best_model = best_model,
        st_sampler = UniformSampling ext (random_seed_opt options) (num_data solver) (min_sample_size solver),
        st_max_num_iterations = max (max_num_iterations_opt options) (min_num_iterations_opt options),
        st_best_minimal_model = default_model solver,
        st_best_min_model_score = DBL_MAX,
        st_minimal_sample = replicate (nat (min_sample_size solver)) 0,
        st_estimated_models = []\<rparr>"
  have run: "snd (snd (EstimateModel ext options solver best_model statistics))
      = st_stats (EstimateModel_loop ext options solver ?st0)"
    using assms(1,2) by (simp add: EstimateModel_def Let_def)
  have "min_num_iterations_opt options
         \<le> num_iterations (st_stats (EstimateModel_loop ext options solver ?st0))
     \<and> num_iterations (st_stats (EstimateModel_loop ext options solver ?st0))
         \<le> max_num_iterations_opt options"
    using assms(3) by (intro EstimateModel_loop_bounds) (simp_all add: max_def)
  moreover have "\<forall>ratio. min_num_iterations_opt options
           \<le> NumRequiredIterations (undefined_conversion ext) ratio
                (double_sub ext 1 (success_probability_opt options)) (min_sample_size solver)
                (min_num_iterations_opt options) (max_num_iterations_opt options)"
    using NumRequiredIterations_ge_min [OF assms(3)] by blast
  moreover have "\<forall>st. min_num_iterations_opt options \<le> st_max_num_iterations st \<longrightarrow>
           min_num_iterations_opt options
             \<le> st_max_num_iterations (EstimateModel_iteration ext options solver st)"
  proof (intro allI impI)
    fix st :: "('a, 'b) EstimateModel_state"
    assume h: "min_num_iterations_opt options \<le> st_max_num_iterations st"
    from EstimateModel_iteration_budget [of ext options solver st]
    show "min_num_iterations_opt options
             \<le> st_max_num_iterations (EstimateModel_iteration ext options solver st)"
      using h NumRequiredIterations_ge_min [OF assms(3)] by (metis (no_types))
  qed
  ultimately show ?thesis
    unfolding run by blast
qed

theorem EstimateModel_iteration_bounds_witness:
  "num_iterations (snd (snd (EstimateModel plain_externals small_options refining_solver 0
       some_statistics))) = 1
   \<and> min_num_iterations_opt small_options
       \<le> num_iterations (snd (snd (EstimateModel plain_externals small_options refining_solver 0
            some_statistics)))
   \<and> num_iterations (snd (snd (EstimateModel plain_externals small_options refining_solver 0
         some_statistics)))
       \<le> max_num_iterations_opt small_options"
proof -
  have h1: "0 < min_sample_size refining_solver" by (simp add: refining_solver_def)
  have h2: "min_sample_size refining_solver \<le> num_data refining_solver"
    by (simp add: refining_solver_def)
  have h3: "min_num_iterations_opt small_options \<le> max_num_iterations_opt small_options"
    by (simp add: small_options_def)
  show ?thesis
    using EstimateModel_iteration_bounds [OF h1 h2 h3, of plain_externals 0 some_statistics]
    by (simp add: refining_run)
qed

section \<open>Values of \<open>NumRequiredIterations\<close>\<close>

text \<open>
  For inlier ratio \<open>1/2\<close>, \<open>\<eta> = 1/10000\<close> and sample size 4 the quotient of the logarithms
  is \<open>ln 10000 / ln (16/15)\<close>, between \<open>285/2\<close> and \<open>287/2\<close> because
  \<open>(16/15)\<^sup>2\<^sup>8\<^sup>5 < 10\<^sup>8 \<le> (16/15)\<^sup>2\<^sup>8\<^sup>7\<close>.
\<close>

lemma power_bounds: "(16 / 15 :: real) ^ 285 < 10 ^ 8" "(10 :: real) ^ 8 \<le> (16 / 15) ^ 287"
  by (simp_all add: power_divide)

lemma ln_bounds:
  "285 / 2 * ln (16 / 15 :: real) < ln 10000" "ln (10000 :: real) \<le> 287 / 2 * ln (16 / 15)"
proof -
  have sq: "(10000 :: real) ^ 2 = 10 ^ 8" by simp
  have a: "ln ((10 :: real) ^ 8) = 2 * ln 10000"
    unfolding sq [symmetric] by (simp only: ln_realpow of_nat_numeral)
  have b1: "ln ((16 / 15 :: real) ^ 285) = 285 * ln (16 / 15)"
    by (simp only: ln_realpow of_nat_numeral)
  have b2: "ln ((16 / 15 :: real) ^ 287) = 287 * ln (16 / 15)"
    by (simp only: ln_realpow of_nat_numeral)
  have p1: "0 < (16 / 15 :: real) ^ n" for n by (rule zero_less_power) simp
  have p2: "0 < (10 :: real) ^ 8" by (rule zero_less_power) simp
  from power_bounds(1) have "ln ((16 / 15 :: real) ^ 285) < ln (10 ^ 8)"
    by (simp only: ln_less_cancel_iff [OF p1 p2])
  then show "285 / 2 * ln (16 / 15 :: real) < ln 10000"
    unfolding a b1 by linarith
  from power_bounds(2) have "ln ((10 :: real) ^ 8) \<le> ln ((16 / 15) ^ 287)"
    by (simp only: ln_le_cancel_iff [OF p2 p1])
  then show "ln (10000 :: real) \<le> 287 / 2 * ln (16 / 15)"
    unfolding a b2 by linarith
qed

lemma num_iters_value: "\<lceil>ln (1 / 10000 :: real) / ln (15 / 16) + 1 / 2\<rceil> = 144"
proof -
  have pos: "0 < ln (16 / 15 :: real)" by simp
  have n: "ln (1 / 10000 :: real) = - ln 10000" by (simp add: ln_div)
  have d: "ln (15 / 16 :: real) = - ln (16 / 15)" by (simp add: ln_div)
  have q: "ln (1 / 10000 :: real) / ln (15 / 16) = ln 10000 / ln (16 / 15)"
    unfolding n d by simp
  have lo: "285 / 2 < ln (10000 :: real) / ln (16 / 15)"
    using ln_bounds(1) pos by (simp add: pos_less_divide_eq)
  have hi: "ln (10000 :: real) / ln (16 / 15) \<le> 287 / 2"
    using ln_bounds(2) pos by (simp add: pos_divide_le_eq)
  from lo have l: "143 < ln (10000 :: real) / ln (16 / 15) + 1 / 2" by linarith
  from hi have h: "ln (10000 :: real) / ln (16 / 15) + 1 / 2 \<le> 144" by linarith
  show ?thesis
    unfolding q by (rule ceiling_unique) (simp_all add: l h)
qed

lemma NumRequiredIterations_half:
  "NumRequiredIterations undef (1 / 2) (1 / 10000) 4 100 10000 = 144"
proof -
  have p: "1 - (1 / 2 :: real) powr real_of_int 4 = 15 / 16"
    by (simp add: powr_numeral power_divide)
  have "log_ratio (1 / 10000) (15 / 16) = Some (ln (1 / 10000) / ln (15 / 16))"
    by (simp add: log_ratio_def)
  then show ?thesis
    unfolding NumRequiredIterations_def p Let_def by (simp add: num_iters_value)
qed

text \<open>
  Claim C4, as the code has it. \<open>NumRequiredIterations(0.5, 0.0001, 4, 100, 10000)\<close> is
  144 (the ceiling of \<open>142.71\<dots> + 0.5\<close>), not 140; for inlier ratio 0 the result is
  \<open>max_iterations\<close> and for inlier ratio 1 it is \<open>min_iterations\<close>.
\<close>

theorem NumRequiredIterations_values:
  "NumRequiredIterations undef (1 / 2) (1 / 10000) 4 100 10000 = 144
   \<and> NumRequiredIterations undef 0 p s lo hi = hi
   \<and> NumRequiredIterations undef 1 p s lo hi = lo"
  by (simp add: NumRequiredIterations_half NumRequiredIterations_all_inliers)
    (simp add: NumRequiredIterations_def)

text \<open>The value 140 of the claim is not the value of the function.\<close>

theorem NumRequiredIterations_140_counterexample:
  "NumRequiredIterations (undefined_conversion plain_externals) (1 / 2) (1 / 10000) 4 100 10000
     \<noteq> 140"
  by (simp add: NumRequiredIterations_half)

section \<open>A run in which no candidate improves\<close>

lemma EstimateModel_from_initial_state:
  "EstimateModel ext options solver best_model statistics =
     (if min_sample_size solver > num_data solver \<or> min_sample_size solver \<le> 0
      then (0, best_model, ResetStatistics statistics)
      else
        let st = EstimateModel_loop ext options solver
              (EstimateModel_initial_state ext options solver best_model statistics)
        in (best_num_inliers (st_stats st), st_best_model st, st_stats st))"
  by (simp add: EstimateModel_def EstimateModel_initial_state_def Let_def)

lemma EstimateModel_iteration_unimproved:
  assumes "\<not> EstimateModel_iteration_improves ext options solver st"
  shows "st_stats (EstimateModel_iteration ext options solver st) = st_stats st
     \<and> st_best_model (EstimateModel_iteration ext options solver st) = st_best_model st
     \<and> st_max_num_iterations (EstimateModel_iteration ext options solver st)
         = st_max_num_iterations st"
  using assms
  by (auto simp add: EstimateModel_iteration_def EstimateModel_iteration_improves_def Let_def
      split: prod.splits)

lemma EstimateModel_loop_unimproved:
  "\<not> EstimateModel_loop_improves ext options solver st \<Longrightarrow>
     num_iterations (st_stats st) \<le> st_max_num_iterations st \<Longrightarrow>
     st_stats (EstimateModel_loop ext options solver st)
         = (st_stats st)\<lparr>num_iterations := st_max_num_iterations st\<rparr>
     \<and> st_best_model (EstimateModel_loop ext options solver st) = st_best_model st"
proof (induction ext options solver st rule: EstimateModel_loop.induct)
  case (1 ext options solver st)
  let ?it = "EstimateModel_iteration ext options solver st"
  let ?next = "increment_num_iterations ?it"
  show ?case
  proof (cases "num_iterations (st_stats st) < st_max_num_iterations st")
    case True
    from "1.prems"(1) True
    have now: "\<not> EstimateModel_iteration_improves ext options solver st"
      and later: "\<not> EstimateModel_loop_improves ext options solver ?next"
      by (subst (asm) EstimateModel_loop_improves.simps, simp)+
    have same: "st_stats ?it = st_stats st \<and> st_best_model ?it = st_best_model st
        \<and> st_max_num_iterations ?it = st_max_num_iterations st"
      using now by (rule EstimateModel_iteration_unimproved)
    have le: "num_iterations (st_stats st) + 1 \<le> st_max_num_iterations st"
      using True by (rule inc_le)
    have "st_stats (EstimateModel_loop ext options solver ?next)
         = (st_stats ?next)\<lparr>num_iterations := st_max_num_iterations ?next\<rparr>
       \<and> st_best_model (EstimateModel_loop ext options solver ?next) = st_best_model ?next"
      using same le later
      by (intro "1.IH" [OF True]) (simp_all add: increment_num_iterations_def)
    then show ?thesis
      using same
      by (simp add: EstimateModel_loop_unfold_continue [OF True] increment_num_iterations_def)
  next
    case False
    with "1.prems"(2) have "num_iterations (st_stats st) = st_max_num_iterations st"
      by simp
    then have "(st_stats st)\<lparr>num_iterations := st_max_num_iterations st\<rparr> = st_stats st"
      by (metis RansacStatistics.surjective RansacStatistics.update_convs(1))
    with False show ?thesis
      by (simp add: EstimateModel_loop_unfold_exit)
  qed
qed

lemma EstimateModel_unimproved:
  assumes "\<not> EstimateModel_improves ext options solver best_model statistics"
  shows "EstimateModel ext options solver best_model statistics =
     (0, best_model,
      \<lparr>num_iterations =
         (if min_sample_size solver > num_data solver \<or> min_sample_size solver \<le> 0 then 0
          else max (max_num_iterations_opt options) (min_num_iterations_opt options)),
       best_num_inliers = 0, best_model_score = DBL_MAX, inlier_ratio = 0, inlier_indices = []\<rparr>)"
proof (cases "min_sample_size solver > num_data solver \<or> min_sample_size solver \<le> 0")
  case True
  then show ?thesis
    by (simp add: EstimateModel_from_initial_state ResetStatistics_eq)
next
  case False
  let ?st0 = "EstimateModel_initial_state ext options solver best_model statistics"
  from assms False have "\<not> EstimateModel_loop_improves ext options solver ?st0"
    by (simp add: EstimateModel_improves_def)
  moreover have "num_iterations (st_stats ?st0) \<le> st_max_num_iterations ?st0"
    by (simp add: EstimateModel_initial_state_def)
  ultimately have "st_stats (EstimateModel_loop ext options solver ?st0)
         = (st_stats ?st0)\<lparr>num_iterations := st_max_num_iterations ?st0\<rparr>
     \<and> st_best_model (EstimateModel_loop ext options solver ?st0) = st_best_model ?st0"
    by (rule EstimateModel_loop_unimproved)
  then show ?thesis
    using False
    by (simp add: EstimateModel_from_initial_state Let_def)
      (simp add: EstimateModel_initial_state_def ResetStatistics_eq)
qed

lemma UpdateBestModel_le_curr: "fst (UpdateBestModel score_curr m_curr best) \<le> score_curr"
  by (simp add: UpdateBestModel_def split: prod.splits)

lemma LocalOptimization_score_le:
  "snd (LocalOptimization ext options solver best_minimal_model score_best_minimal_model)
     \<le> score_best_minimal_model"
proof -
  have a: "fst (snd (LocalOptimization_loop ext options solver base k 0
        (r1, UpdateBestModel sc mm (score_best_minimal_model, best_minimal_model))))
      \<le> score_best_minimal_model" for base k r1 sc mm
    using LocalOptimization_loop_le [of ext options solver base k 0
        "(r1, UpdateBestModel sc mm (score_best_minimal_model, best_minimal_model))"]
      UpdateBestModel_le [of sc mm "(score_best_minimal_model, best_minimal_model)"]
    by simp
  show ?thesis
    unfolding LocalOptimization_def
    by (auto simp add: Let_def split: prod.splits) (metis a fst_conv snd_conv)
qed

lemma EstimateModel_new_best_score:
  "best_model_score (st_stats (EstimateModel_new_best ext options solver sc k st)) \<le> sc
   \<and> best_model_score (st_stats (EstimateModel_new_best ext options solver sc k st))
       \<le> best_model_score (st_stats st)"
proof -
  let ?lo = "LocalOptimization ext options solver (st_estimated_models st ! nat k) sc"
  let ?u = "UpdateBestModel (snd ?lo) (st_estimated_models st ! nat k)
      (best_model_score (st_stats st), st_best_model st)"
  have eq: "best_model_score (st_stats (EstimateModel_new_best ext options solver sc k st)) = fst ?u"
    by (simp add: EstimateModel_new_best_def Let_def split: prod.splits)
  have "fst ?u \<le> snd ?lo" by (rule UpdateBestModel_le_curr)
  moreover have "snd ?lo \<le> sc" by (rule LocalOptimization_score_le)
  moreover have "fst ?u \<le> best_model_score (st_stats st)"
    using UpdateBestModel_le [of "snd ?lo" "st_estimated_models st ! nat k"
        "(best_model_score (st_stats st), st_best_model st)"] by simp
  ultimately show ?thesis unfolding eq by linarith
qed

lemma EstimateModel_iteration_score_mono:
  "best_model_score (st_stats (EstimateModel_iteration ext options solver st))
     \<le> best_model_score (st_stats st)"
proof -
  obtain sampler' minimal_sample' where
    s: "Sample ext (st_sampler st) (st_minimal_sample st) = (sampler', minimal_sample')"
    by (cases "Sample ext (st_sampler st) (st_minimal_sample st)")
  obtain k models' where
    m: "MinimalSolver solver minimal_sample' (st_estimated_models st) = (k, models')"
    by (cases "MinimalSolver solver minimal_sample' (st_estimated_models st)")
  obtain sc id where
    b: "GetBestEstimatedModelId ext solver models' (squared_inlier_threshold_opt options) = (sc, id)"
    by (cases "GetBestEstimatedModelId ext solver models' (squared_inlier_threshold_opt options)")
  let ?st1 = "st\<lparr>st_sampler := sampler', st_minimal_sample := minimal_sample',
      st_estimated_models := models'\<rparr>"
  have "best_model_score (st_stats (EstimateModel_new_best ext options solver sc id ?st1))
      \<le> best_model_score (st_stats st)"
    using EstimateModel_new_best_score [of ext options solver sc id ?st1] by simp
  then show ?thesis
    by (simp add: EstimateModel_iteration_def s m b Let_def)
qed

lemma EstimateModel_iteration_improved:
  assumes "EstimateModel_iteration_improves ext options solver st"
    and "st_best_min_model_score st \<le> DBL_MAX"
  shows "best_model_score (st_stats (EstimateModel_iteration ext options solver st)) < DBL_MAX"
proof -
  obtain sampler' minimal_sample' where
    s: "Sample ext (st_sampler st) (st_minimal_sample st) = (sampler', minimal_sample')"
    by (cases "Sample ext (st_sampler st) (st_minimal_sample st)")
  obtain k models' where
    m: "MinimalSolver solver minimal_sample' (st_estimated_models st) = (k, models')"
    by (cases "MinimalSolver solver minimal_sample' (st_estimated_models st)")
  obtain sc id where
    b: "GetBestEstimatedModelId ext solver models' (squared_inlier_threshold_opt options) = (sc, id)"
    by (cases "GetBestEstimatedModelId ext solver models' (squared_inlier_threshold_opt options)")
  let ?st1 = "st\<lparr>st_sampler := sampler', st_minimal_sample := minimal_sample',
      st_estimated_models := models'\<rparr>"
  from assms(1) have k: "0 < k" and lt: "sc < st_best_min_model_score st"
    by (simp_all add: EstimateModel_iteration_improves_def s m b)
  have it: "EstimateModel_iteration ext options solver st
      = EstimateModel_new_best ext options solver sc id ?st1"
    using k lt by (simp add: EstimateModel_iteration_def s m b Let_def)
  have "best_model_score (st_stats (EstimateModel_new_best ext options solver sc id ?st1)) \<le> sc"
    using EstimateModel_new_best_score [of ext options solver sc id ?st1] by simp
  with lt assms(2) show ?thesis unfolding it by linarith
qed

lemma EstimateModel_loop_score_mono:
  "best_model_score (st_stats (EstimateModel_loop ext options solver st))
     \<le> best_model_score (st_stats st)"
proof (induction ext options solver st rule: EstimateModel_loop.induct)
  case (1 ext options solver st)
  let ?it = "EstimateModel_iteration ext options solver st"
  show ?case
  proof (cases "num_iterations (st_stats st) < st_max_num_iterations st")
    case True
    have "best_model_score (st_stats (increment_num_iterations ?it))
        \<le> best_model_score (st_stats st)"
      using EstimateModel_iteration_score_mono [of ext options solver st]
      by (simp add: increment_num_iterations_def)
    with "1.IH" [OF True] show ?thesis
      unfolding EstimateModel_loop_unfold_continue [OF True] by linarith
  next
    case False
    then show ?thesis by (simp add: EstimateModel_loop_unfold_exit)
  qed
qed

lemma EstimateModel_loop_improved:
  "EstimateModel_loop_improves ext options solver st \<Longrightarrow>
     st_best_min_model_score st \<le> DBL_MAX \<Longrightarrow>
     best_model_score (st_stats (EstimateModel_loop ext options solver st)) < DBL_MAX"
proof (induction ext options solver st rule: EstimateModel_loop.induct)
  case (1 ext options solver st)
  let ?it = "EstimateModel_iteration ext options solver st"
  let ?next = "increment_num_iterations ?it"
  from "1.prems"(1) have True: "num_iterations (st_stats st) < st_max_num_iterations st"
    by (subst (asm) EstimateModel_loop_improves.simps) (simp split: if_splits)
  from "1.prems"(1) True
  have disj: "EstimateModel_iteration_improves ext options solver st
      \<or> EstimateModel_loop_improves ext options solver ?next"
    by (subst (asm) EstimateModel_loop_improves.simps) simp
  have inv: "st_best_min_model_score ?next \<le> DBL_MAX"
    using EstimateModel_iteration_best_min_model_score [OF "1.prems"(2), of ext options solver]
    by (simp add: increment_num_iterations_def)
  from disj show ?case
  proof
    assume "EstimateModel_iteration_improves ext options solver st"
    then have "best_model_score (st_stats ?it) < DBL_MAX"
      using "1.prems"(2) by (rule EstimateModel_iteration_improved)
    then have "best_model_score (st_stats ?next) < DBL_MAX"
      by (simp add: increment_num_iterations_def)
    with EstimateModel_loop_score_mono [of ext options solver ?next] show ?thesis
      unfolding EstimateModel_loop_unfold_continue [OF True] by linarith
  next
    assume "EstimateModel_loop_improves ext options solver ?next"
    from "1.IH" [OF True this inv] show ?thesis
      unfolding EstimateModel_loop_unfold_continue [OF True] .
  qed
qed

lemma EstimateModel_improved:
  assumes "EstimateModel_improves ext options solver best_model statistics"
  shows "best_model_score (snd (snd (EstimateModel ext options solver best_model statistics)))
     < DBL_MAX"
proof -
  let ?st0 = "EstimateModel_initial_state ext options solver best_model statistics"
  from assms have valid: "\<not> (min_sample_size solver > num_data solver \<or> min_sample_size solver \<le> 0)"
    and imp: "EstimateModel_loop_improves ext options solver ?st0"
    by (simp_all add: EstimateModel_improves_def)
  have "st_best_min_model_score ?st0 \<le> DBL_MAX"
    by (simp add: EstimateModel_initial_state_def)
  with imp have "best_model_score (st_stats (EstimateModel_loop ext options solver ?st0)) < DBL_MAX"
    by (rule EstimateModel_loop_improved)
  then show ?thesis
    using valid by (simp add: EstimateModel_from_initial_state Let_def)
qed

lemma never_yielding_solver_unimproved:
  assumes "\<forall>sample models. fst (MinimalSolver solver sample models) \<le> 0"
  shows "\<not> EstimateModel_loop_improves ext options solver st"
  using assms
proof (induction ext options solver st rule: EstimateModel_loop_improves.induct)
  case (1 ext options solver st)
  have now: "\<not> EstimateModel_iteration_improves ext options solver st"
    using "1.prems" by (auto simp add: EstimateModel_iteration_improves_def Let_def
        split: prod.splits) (metis fst_conv not_less)
  show ?case
  proof (cases "num_iterations (st_stats st) < st_max_num_iterations st")
    case True
    from "1.IH" [OF True] "1.prems" now True show ?thesis
      by (subst EstimateModel_loop_improves.simps) simp
  next
    case False
    then show ?thesis by (subst EstimateModel_loop_improves.simps) simp
  qed
qed

text \<open>
  Claim C5, as the code has it. If no candidate improves on the initial state during
  the call, \<open>EstimateModel\<close> returns 0, leaves \<open>*best_model\<close> as the caller passed it (it is
  never assigned, so it is default-constructed only if the caller passed it so), and the
  statistics have \<open>best_num_inliers = 0\<close>, \<open>inlier_ratio = 0\<close>, no inlier indices and
  \<open>best_model_score = std::numeric_limits<double>::max()\<close>, the largest finite double, not
  an infinity; \<open>num_iterations\<close> is the larger of the two iteration bounds (0 after the
  early return). If some candidate improves, the final \<open>best_model_score\<close> is below that
  value. A minimal solver that always reports 0 models gives a run of the first kind.
\<close>

theorem EstimateModel_no_improvement:
  "(\<not> EstimateModel_improves ext options solver best_model statistics \<longrightarrow>
      EstimateModel ext options solver best_model statistics =
        (0, best_model,
         \<lparr>num_iterations =
            (if min_sample_size solver > num_data solver \<or> min_sample_size solver \<le> 0 then 0
             else max (max_num_iterations_opt options) (min_num_iterations_opt options)),
          best_num_inliers = 0, best_model_score = DBL_MAX, inlier_ratio = 0,
          inlier_indices = []\<rparr>))
   \<and> (EstimateModel_improves ext options solver best_model statistics \<longrightarrow>
      best_model_score (snd (snd (EstimateModel ext options solver best_model statistics)))
        < DBL_MAX)
   \<and> ((\<forall>sample models. fst (MinimalSolver solver sample models) \<le> 0) \<longrightarrow>
      \<not> EstimateModel_improves ext options solver best_model statistics)"
  using EstimateModel_unimproved [of ext options solver best_model statistics]
    EstimateModel_improved [of ext options solver best_model statistics]
    never_yielding_solver_unimproved [of solver ext options]
  by (auto simp add: EstimateModel_improves_def)

lemma initial_state_small:
  "min_sample_size solver = 1 \<Longrightarrow> default_model solver = 0 \<Longrightarrow>
   EstimateModel_initial_state plain_externals small_options solver bm statistics =
     \<lparr>st_stats = \<lparr>num_iterations = 0, best_num_inliers = 0, best_model_score = DBL_MAX,
                  inlier_ratio = 0, inlier_indices = []\<rparr>,
      st_best_model = bm, st_sampler = (), st_max_num_iterations = 3,
      st_best_minimal_model = 0, st_best_min_model_score = DBL_MAX,
      st_minimal_sample = [0], st_estimated_models = []\<rparr>"
  by (simp add: EstimateModel_initial_state_def ResetStatistics_eq small_options_fields
      plain_externals_fields)

lemma picky_solver_fields:
  "min_sample_size picky_solver = 1" "num_data picky_solver = 2"
  "default_model picky_solver = 0"
  "MinimalSolver picky_solver [0] models = (0, models)"
  by (simp_all add: picky_solver_def)

lemma picky_iteration:
  "EstimateModel_iteration plain_externals small_options picky_solver
       \<lparr>st_stats = s, st_best_model = bm, st_sampler = (), st_max_num_iterations = 3,
        st_best_minimal_model = 0, st_best_min_model_score = DBL_MAX,
        st_minimal_sample = [0], st_estimated_models = []\<rparr>
     = \<lparr>st_stats = s, st_best_model = bm, st_sampler = (), st_max_num_iterations = 3,
        st_best_minimal_model = 0, st_best_min_model_score = DBL_MAX,
        st_minimal_sample = [0], st_estimated_models = []\<rparr>"
  by (simp add: EstimateModel_iteration_def plain_externals_fields picky_solver_fields Let_def)

lemma picky_iteration_unimproved:
  "\<not> EstimateModel_iteration_improves plain_externals small_options picky_solver
       \<lparr>st_stats = s, st_best_model = bm, st_sampler = (), st_max_num_iterations = 3,
        st_best_minimal_model = 0, st_best_min_model_score = DBL_MAX,
        st_minimal_sample = [0], st_estimated_models = []\<rparr>"
  by (simp add: EstimateModel_iteration_improves_def plain_externals_fields picky_solver_fields
      Let_def)

lemma picky_unimproved:
  "\<not> EstimateModel_improves plain_externals small_options picky_solver 7 some_statistics"
  by (simp add: EstimateModel_improves_def picky_solver_fields initial_state_small
      EstimateModel_loop_improves.simps picky_iteration picky_iteration_unimproved
      increment_num_iterations_def)

lemma refining_improves:
  "EstimateModel_improves plain_externals small_options refining_solver 0 some_statistics"
proof -
  let ?st0 = "EstimateModel_initial_state plain_externals small_options refining_solver 0
      some_statistics"
  have "EstimateModel_iteration_improves plain_externals small_options refining_solver ?st0"
    by (simp add: initial_state_small refining_solver_fields EstimateModel_iteration_improves_def
        plain_externals_fields small_options_fields refining_GetBestEstimatedModelId
        one_lt_DBL_MAX Let_def)
  moreover have "num_iterations (st_stats ?st0) < st_max_num_iterations ?st0"
    by (simp add: initial_state_small refining_solver_fields)
  ultimately have "EstimateModel_loop_improves plain_externals small_options refining_solver ?st0"
    by (subst EstimateModel_loop_improves.simps) simp
  then show ?thesis
    by (simp add: EstimateModel_improves_def refining_solver_fields)
qed

theorem EstimateModel_no_improvement_witness:
  "EstimateModel plain_externals small_options picky_solver 7 some_statistics =
     (0, 7, \<lparr>num_iterations = 3, best_num_inliers = 0, best_model_score = DBL_MAX,
              inlier_ratio = 0, inlier_indices = []\<rparr>)
   \<and> best_model_score (snd (snd (EstimateModel plain_externals small_options refining_solver 0
        some_statistics))) < DBL_MAX
   \<and> EstimateModel plain_externals small_options degenerate_solver 7 some_statistics =
     (0, 7, \<lparr>num_iterations = 3, best_num_inliers = 0, best_model_score = DBL_MAX,
              inlier_ratio = 0, inlier_indices = []\<rparr>)"
proof -
  have never: "\<forall>sample models. fst (MinimalSolver degenerate_solver sample models) \<le> 0"
    by (simp add: degenerate_solver_def)
  have f: "min_sample_size degenerate_solver = 1" "num_data degenerate_solver = 2"
    by (simp_all add: degenerate_solver_def)
  show ?thesis
    using EstimateModel_no_improvement [of plain_externals small_options picky_solver 7
        some_statistics]
      EstimateModel_no_improvement [of plain_externals small_options refining_solver 0
        some_statistics]
      EstimateModel_no_improvement [of plain_externals small_options degenerate_solver 7
        some_statistics]
      picky_unimproved refining_improves never
    by (simp add: picky_solver_fields f small_options_fields)
qed

text \<open>
  With a minimal solver that always reports 0 models and \<open>*best_model = 7\<close> on entry,
  the model returned is 7, not the default-constructed model 0.
\<close>

theorem EstimateModel_no_improvement_counterexample:
  "fst (snd (EstimateModel plain_externals small_options degenerate_solver 7 some_statistics))
     \<noteq> default_model degenerate_solver"
  by (simp add: degenerate_run) (simp add: degenerate_solver_def)

section \<open>The model that \<open>EstimateModel\<close> stores\<close>

text \<open>
  For every input: when the refined score beats the stored best score, the branch
  stores the minimal model under the refined score.
\<close>

lemma EstimateModel_new_best_stores_minimal_model:
  assumes "snd (LocalOptimization ext options solver (st_estimated_models st ! nat k) sc)
      < best_model_score (st_stats st)"
  shows "st_best_model (EstimateModel_new_best ext options solver sc k st)
       = st_estimated_models st ! nat k
     \<and> best_model_score (st_stats (EstimateModel_new_best ext options solver sc k st))
       = snd (LocalOptimization ext options solver (st_estimated_models st ! nat k) sc)"
  using assms
  by (auto simp add: EstimateModel_new_best_def UpdateBestModel_def Let_def split: prod.splits)

text \<open>
  The runs below are evaluated twice: with exact arithmetic on the refining solver, and with
  binary64 arithmetic on the halving solver, whose residuals and scores are doubles.
\<close>

lemma halving_solver_more_fields:
  "MinimalSolver halving_solver sample models = (1, [1])"
  "non_minimal_sample_size halving_solver = 1"
  by (simp_all add: halving_solver_def)

lemma halving_GetInliers:
  "0 \<le> m \<Longrightarrow> GetInliers halving_solver m 1 (Some v) =
     (if m = 0 then (0, Some []) else (2, Some [0, 1]))"
proof -
  assume m: "0 \<le> m"
  have "(1 :: real) / 2 ^ nat m < 1 \<longleftrightarrow> m \<noteq> 0"
    using m by (cases "m = 0") (simp_all add: one_less_power)
  then show ?thesis
    by (simp add: GetInliers_Some halving_solver_fields upto_0_1)
qed

lemma halving_prefit_steps:
  "spec_LO_step_prefit binary64_externals small_options halving_solver [0, 1] 1 ((), (1 / 2, 2))
     = ((), (1 / 16, 5))"
  "spec_LO_step_prefit binary64_externals small_options halving_solver [0, 1] 1 ((), (1 / 16, 5))
     = ((), (1 / 16, 5))"
  by (simp_all add: spec_LO_step_prefit_def spec_pass_def spec_update_def small_options_fields
      halving_solver_fields binary64_externals_fields halving_score halving_fit
      small_rounded_thresholds upt_2 Let_def)

lemma halving_LO_loop:
  "LocalOptimization_loop binary64_externals small_options halving_solver [0, 1] 1 0
       ((), (1 / 2, 2)) = ((), (1 / 16, 5))"
  by (simp add: LocalOptimization_loop.simps small_options_fields LocalOptimization_step_spec
      halving_prefit_steps)

lemma halving_LocalOptimization:
  "LocalOptimization binary64_externals small_options halving_solver 1 1 = (5, 1 / 16)"
proof -
  have s1: "spec_score binary64_externals halving_solver 1 1 = 1"
    by (simp add: spec_score_def halving_solver_fields upto_0_1 binary64_externals_fields
        binary64_small_values)
  show ?thesis
    by (simp add: LocalOptimization_def small_options_fields halving_solver_fields
        binary64_externals_fields binary64_small_values LeastSquaresFit_spec halving_fit
        ScoreModel_spec halving_score UpdateBestModel_def halving_GetInliers halving_LO_loop
        halving_solver_more_fields Let_def)
qed

lemma halving_GetBestEstimatedModelId:
  "GetBestEstimatedModelId binary64_externals halving_solver [1] 1 = (1, 0)"
proof -
  have s1: "spec_score binary64_externals halving_solver 1 1 = 1"
    by (simp add: spec_score_def halving_solver_fields upto_0_1 binary64_externals_fields
        binary64_small_values)
  show ?thesis
    by (simp add: GetBestEstimatedModelId_def GetBestEstimatedModelId_loop.simps
        ScoreModel_spec s1 one_lt_DBL_MAX Let_def)
qed

lemma halving_run:
  "EstimateModel binary64_externals small_options halving_solver 0 some_statistics =
     (2, 1, \<lparr>num_iterations = 1, best_num_inliers = 2, best_model_score = 1 / 16,
              inlier_ratio = 1, inlier_indices = [0, 1]\<rparr>)"
proof -
  have lt: "(1 / 16 :: real) < DBL_MAX"
    by (simp add: DBL_MAX_def)
  have nb: "EstimateModel_new_best binary64_externals small_options halving_solver 1 0
       \<lparr>st_stats = \<lparr>num_iterations = 0, best_num_inliers = 0, best_model_score = DBL_MAX,
                    inlier_ratio = 0, inlier_indices = []\<rparr>,
        st_best_model = 0, st_sampler = (), st_max_num_iterations = 3,
        st_best_minimal_model = 0, st_best_min_model_score = DBL_MAX,
        st_minimal_sample = [0], st_estimated_models = [1]\<rparr>
     = \<lparr>st_stats = \<lparr>num_iterations = 0, best_num_inliers = 2, best_model_score = 1 / 16,
                    inlier_ratio = 1, inlier_indices = [0, 1]\<rparr>,
        st_best_model = 1, st_sampler = (), st_max_num_iterations = 1,
        st_best_minimal_model = 1, st_best_min_model_score = 1,
        st_minimal_sample = [0], st_estimated_models = [1]\<rparr>"
    using lt
    by (simp add: EstimateModel_new_best_def halving_LocalOptimization UpdateBestModel_def
        halving_GetInliers small_options_fields halving_solver_fields binary64_externals_fields
        binary64_small_values NumRequiredIterations_all_inliers Let_def)
  have it: "EstimateModel_iteration binary64_externals small_options halving_solver
       \<lparr>st_stats = \<lparr>num_iterations = 0, best_num_inliers = 0, best_model_score = DBL_MAX,
                    inlier_ratio = 0, inlier_indices = []\<rparr>,
        st_best_model = 0, st_sampler = (), st_max_num_iterations = 3,
        st_best_minimal_model = 0, st_best_min_model_score = DBL_MAX,
        st_minimal_sample = [0], st_estimated_models = []\<rparr>
     = \<lparr>st_stats = \<lparr>num_iterations = 0, best_num_inliers = 2, best_model_score = 1 / 16,
                    inlier_ratio = 1, inlier_indices = [0, 1]\<rparr>,
        st_best_model = 1, st_sampler = (), st_max_num_iterations = 1,
        st_best_minimal_model = 1, st_best_min_model_score = 1,
        st_minimal_sample = [0], st_estimated_models = [1]\<rparr>"
    by (simp add: EstimateModel_iteration_def binary64_externals_fields
        halving_solver_more_fields small_options_fields halving_GetBestEstimatedModelId
        one_lt_DBL_MAX nb Let_def)
  show ?thesis
    by (simp add: EstimateModel_def ResetStatistics_eq halving_solver_fields small_options_fields
        binary64_externals_fields EstimateModel_loop.simps it increment_num_iterations_def
        Let_def)
qed

lemma halving_ScoreModel:
  "ScoreModel binary64_externals halving_solver 1 1 = 1"
  "ScoreModel binary64_externals halving_solver 5 1 = 1 / 16"
  by (simp_all add: ScoreModel_spec halving_score spec_score_def halving_solver_fields upto_0_1
      binary64_externals_fields binary64_small_values)

text \<open>
  Claim C1 says that when the refined score beats the global best score, \<open>*best_model\<close>
  becomes the refined model of \<open>LocalOptimization\<close>. The source passes
  \<open>best_minimal_model\<close> to \<open>UpdateBestModel\<close>, so it stores the minimal model with the
  score of the refined one. On the refining solver: \<open>LocalOptimization\<close> turns the minimal
  model 1 (score 1) into the refined model 5 (score \<open>1/3\<close>); \<open>EstimateModel\<close> returns
  model 1 with \<open>best_model_score = 1/3\<close>, which is the score of model 5 and not of
  model 1. With binary64 arithmetic on the halving solver, \<open>LocalOptimization\<close> turns the
  minimal model 1 (score 1) into the refined model 5 (score \<open>1/16\<close>), and \<open>EstimateModel\<close>
  returns model 1 with \<open>best_model_score = 1/16\<close>.
\<close>

theorem EstimateModel_stores_minimal_model:
  "LocalOptimization plain_externals small_options refining_solver 1 1 = (5, 1 / 3)
   \<and> EstimateModel plain_externals small_options refining_solver 0 some_statistics =
       (2, 1, \<lparr>num_iterations = 1, best_num_inliers = 2, best_model_score = 1 / 3,
                inlier_ratio = 1, inlier_indices = [0, 1]\<rparr>)
   \<and> ScoreModel plain_externals refining_solver 1 1 = 1
   \<and> ScoreModel plain_externals refining_solver 5 1 = 1 / 3
   \<and> LocalOptimization binary64_externals small_options halving_solver 1 1 = (5, 1 / 16)
   \<and> EstimateModel binary64_externals small_options halving_solver 0 some_statistics =
       (2, 1, \<lparr>num_iterations = 1, best_num_inliers = 2, best_model_score = 1 / 16,
                inlier_ratio = 1, inlier_indices = [0, 1]\<rparr>)
   \<and> ScoreModel binary64_externals halving_solver 1 1 = 1
   \<and> ScoreModel binary64_externals halving_solver 5 1 = 1 / 16"
  by (simp add: refining_LocalOptimization refining_run refining_ScoreModel
      halving_LocalOptimization halving_run halving_ScoreModel)

end
